theory Spec2Isabelle
  imports Main "HOL-Library.Multiset" "HOL-Library.Sublist" "HOL-Library.Monad_Syntax"
begin

section \<open>JavaScript values the code computes with\<close>

subsection \<open>Strings\<close>

text \<open>
  A string is a list of characters. \<open>toLowerCase\<close> is modelled on the ASCII letters
  (every other character is left as it is), \<open>includes_str\<close> is the substring
  test \<open>String.prototype.includes\<close>,
  \<open>join\<close> is \<open>Array.prototype.join\<close> on an array of strings and
  \<open>substring(0, n)\<close> is \<open>take n\<close>.
\<close>

definition toLowerChar :: "char \<Rightarrow> char" where
  "toLowerChar c =
     (case map_of (zip ''ABCDEFGHIJKLMNOPQRSTUVWXYZ'' ''abcdefghijklmnopqrstuvwxyz'') c of
        None \<Rightarrow> c
      | Some l \<Rightarrow> l)"

definition toLowerCase :: "string \<Rightarrow> string" where
  "toLowerCase s = map toLowerChar s"

fun startsWith :: "string \<Rightarrow> string \<Rightarrow> bool" where
  "startsWith s [] = True"
| "startsWith [] (k # ks) = False"
| "startsWith (c # s) (k # ks) = (c = k \<and> startsWith s ks)"

fun includes_str :: "string \<Rightarrow> string \<Rightarrow> bool" where
  "includes_str [] kw = (kw = [])"
| "includes_str (c # s) kw = (startsWith (c # s) kw \<or> includes_str s kw)"

fun join :: "string \<Rightarrow> string list \<Rightarrow> string" where
  "join sep [] = []"
| "join sep [x] = x"
| "join sep (x # y # ys) = x @ sep @ join sep (y # ys)"

subsection \<open>Map and Set\<close>

text \<open>
  A JavaScript \<open>Map\<close> keeps its entries in insertion order and \<open>set\<close> on a key
  that is present replaces the value where it stands: an association list whose keys
  are distinct. A \<open>Set\<close> built from an array keeps the first occurrence of every
  element, in order.
\<close>

type_synonym ('k, 'v) Map = "('k \<times> 'v) list"

fun Map_get :: "('k, 'v) Map \<Rightarrow> 'k \<Rightarrow> 'v option" where
  "Map_get [] k = None"
| "Map_get ((k', v') # m) k = (if k' = k then Some v' else Map_get m k)"

fun Map_set :: "('k, 'v) Map \<Rightarrow> 'k \<Rightarrow> 'v \<Rightarrow> ('k, 'v) Map" where
  "Map_set [] k v = [(k, v)]"
| "Map_set ((k', v') # m) k v = (if k' = k then (k, v) # m else (k', v') # Map_set m k v)"

definition Map_new :: "('k \<times> 'v) list \<Rightarrow> ('k, 'v) Map" where
  "Map_new entries = fold (\<lambda>(k, v) m. Map_set m k v) entries []"

definition Set_add :: "'a list \<Rightarrow> 'a \<Rightarrow> 'a list" where
  "Set_add s x = (if x \<in> set s then s else s @ [x])"

definition Set_new :: "'a list \<Rightarrow> 'a list" where
  "Set_new xs = fold (\<lambda>x s. Set_add s x) xs []"

section \<open>Course state (src/state/course\_state.ts)\<close>

text \<open>
  Lecture numbers are integers. The optional fields \<open>context\<close>, \<open>validTo\<close> and
  \<open>lectureNumber\<close> are options, \<open>None\<close> standing for \<open>undefined\<close>.
\<close>

datatype Language = En | De

datatype Level = Remember | Understand | Apply | Analyze | Evaluate | Create

record LearningObjective =
  lo_id :: string
  lo_description :: string
  level :: Level
  lectureNumber :: "int option"

record NotationEntry =
  symbol :: string
  meaning :: string
  introducedIn :: int
  n_context :: "string option"

record Assumption =
  a_id :: string
  a_description :: string
  a_introducedIn :: int
  validFrom :: int
  validTo :: "int option"

record LectureMetadata =
  number :: int
  title :: string
  objectives :: "string list"
  prerequisites :: "string list"
  notationIntroduced :: "string list"
  assumptionsIntroduced :: "string list"
  l_files :: "string list"

record CourseState =
  courseName :: string
  language :: Language
  syllabus :: string
  learningObjectives :: "LearningObjective list"
  notationRegistry :: "NotationEntry list"
  assumptions :: "Assumption list"
  lectures :: "(int, LectureMetadata) Map"

text \<open>The constructor; the language argument defaults to \<open>'en'\<close> when it is left out.\<close>

definition CourseState_new :: "string \<Rightarrow> Language option \<Rightarrow> CourseState" where
  "CourseState_new name lang =
     \<lparr>courseName = name,
      language = (case lang of None \<Rightarrow> En | Some l \<Rightarrow> l),
      syllabus = [],
      learningObjectives = [],
      notationRegistry = [],
      assumptions = [],
      lectures = []\<rparr>"

text \<open>
  \<open>registerNotation\<close> looks for the first entry of the symbol. When there is one it is
  mutated where it stands: the meaning is overwritten, and the context too when the
  argument is truthy (given and not the empty string). Otherwise a new entry is pushed.
\<close>

fun mutateFirst :: "('a \<Rightarrow> bool) \<Rightarrow> ('a \<Rightarrow> 'a) \<Rightarrow> 'a list \<Rightarrow> 'a list" where
  "mutateFirst P f [] = []"
| "mutateFirst P f (x # xs) = (if P x then f x # xs else x # mutateFirst P f xs)"

definition truthy :: "string option \<Rightarrow> bool" where
  "truthy c = (case c of None \<Rightarrow> False | Some t \<Rightarrow> t \<noteq> [])"

definition registerNotation ::
  "CourseState \<Rightarrow> string \<Rightarrow> string \<Rightarrow> int \<Rightarrow> string option \<Rightarrow> CourseState" where
  "registerNotation s symb mng lectureNo ctx =
     (case find (\<lambda>n. symbol n = symb) (notationRegistry s) of
        Some existing \<Rightarrow>
          s\<lparr>notationRegistry :=
              mutateFirst (\<lambda>n. symbol n = symb)
                (\<lambda>n. if truthy ctx then n\<lparr>meaning := mng, n_context := ctx\<rparr>
                     else n\<lparr>meaning := mng\<rparr>)
                (notationRegistry s)\<rparr>
      | None \<Rightarrow>
          s\<lparr>notationRegistry := notationRegistry s @
              [\<lparr>symbol = symb, meaning = mng, introducedIn = lectureNo, n_context = ctx\<rparr>]\<rparr>)"

definition getNotationUpToLecture :: "CourseState \<Rightarrow> int \<Rightarrow> NotationEntry list" where
  "getNotationUpToLecture s lectureNo =
     filter (\<lambda>n. introducedIn n \<le> lectureNo) (notationRegistry s)"

text \<open>A sequence of \<open>registerNotation\<close> calls, each given by its four arguments.\<close>

type_synonym NotationCall = "string \<times> string \<times> int \<times> string option"

definition registerNotations :: "CourseState \<Rightarrow> NotationCall list \<Rightarrow> CourseState" where
  "registerNotations s calls =
     fold (\<lambda>(symb, mng, lectureNo, ctx) st. registerNotation st symb mng lectureNo ctx) calls s"

text \<open>
  \<open>verifyNotationConsistency\<close>: the first loop groups the registry by symbol in a
  \<open>Map\<close>, the second loop pushes one message for every group whose set of meanings has
  more than one element.
\<close>

definition groupBySymbol :: "NotationEntry list \<Rightarrow> (string, NotationEntry list) Map" where
  "groupBySymbol registry =
     fold (\<lambda>entry symbolMap.
             Map_set symbolMap (symbol entry)
               ((case Map_get symbolMap (symbol entry) of None \<Rightarrow> [] | Some es \<Rightarrow> es) @ [entry]))
          registry []"

definition conflictMessage :: "string \<Rightarrow> string list \<Rightarrow> string" where
  \<open>conflictMessage symb meanings =
     ''Symbol "'' @ symb @ ''" has conflicting meanings: '' @ join '', '' meanings\<close>

definition conflictsOf :: "(string, NotationEntry list) Map \<Rightarrow> string list" where
  "conflictsOf symbolMap =
     fold (\<lambda>(symb, entries) conflicts.
             (let meanings = Set_new (map meaning entries)
              in if length meanings > 1 then conflicts @ [conflictMessage symb meanings]
                 else conflicts))
          symbolMap []"

record NotationCheck =
  consistent :: bool
  conflicts :: "string list"

definition verifyNotationConsistency :: "CourseState \<Rightarrow> NotationCheck" where
  "verifyNotationConsistency s =
     (let conflicts = conflictsOf (groupBySymbol (notationRegistry s))
      in \<lparr>consistent = (length conflicts = 0), conflicts = conflicts\<rparr>)"

text \<open>
  \<open>registerAssumption\<close> pushes what it is given and returns the generated id;
  \<open>decimal\<close> is the decimal numeral that the template string writes for the number.
\<close>

definition digit :: "nat \<Rightarrow> char" where
  "digit d = ''0123456789'' ! (d mod 10)"

fun decimal :: "nat \<Rightarrow> string" where
  "decimal n = (if n < 10 then [digit n] else decimal (n div 10) @ [digit (n mod 10)])"

declare decimal.simps [simp del]

definition registerAssumption ::
  "CourseState \<Rightarrow> string \<Rightarrow> int \<Rightarrow> int \<Rightarrow> int option \<Rightarrow> string \<times> CourseState" where
  "registerAssumption s descr intro vFrom vTo =
     (let ident = ''assumption_'' @ decimal (length (assumptions s) + 1)
      in (ident,
          s\<lparr>assumptions := assumptions s @
              [\<lparr>a_id = ident, a_description = descr, a_introducedIn = intro,
                validFrom = vFrom, validTo = vTo\<rparr>]\<rparr>))"

definition getActiveAssumptions :: "CourseState \<Rightarrow> int \<Rightarrow> Assumption list" where
  "getActiveAssumptions s lectureNo =
     filter (\<lambda>a. validFrom a \<le> lectureNo \<and>
                 (case validTo a of None \<Rightarrow> True | Some t \<Rightarrow> t \<ge> lectureNo))
            (assumptions s)"

definition updateLecture :: "CourseState \<Rightarrow> LectureMetadata \<Rightarrow> CourseState" where
  "updateLecture s metadata = s\<lparr>lectures := Map_set (lectures s) (number metadata) metadata\<rparr>"

text \<open>
  The methods that change a course state, as a datatype of calls, and the state after a
  sequence of calls.
\<close>

datatype Call =
    RegisterNotation string string int "string option"
  | RegisterAssumption string int int "int option"
  | UpdateLecture LectureMetadata

fun call :: "Call \<Rightarrow> CourseState \<Rightarrow> CourseState" where
  "call (RegisterNotation symb mng lectureNo ctx) s = registerNotation s symb mng lectureNo ctx"
| "call (RegisterAssumption descr intro vFrom vTo) s = snd (registerAssumption s descr intro vFrom vTo)"
| "call (UpdateLecture metadata) s = updateLecture s metadata"

definition calls :: "Call list \<Rightarrow> CourseState \<Rightarrow> CourseState" where
  "calls cs s = fold call cs s"

type_synonym AssumptionCall = "string \<times> int \<times> int \<times> int option"

definition registerAssumptions :: "CourseState \<Rightarrow> AssumptionCall list \<Rightarrow> CourseState" where
  "registerAssumptions s cs =
     fold (\<lambda>(descr, intro, vFrom, vTo) st. snd (registerAssumption st descr intro vFrom vTo)) cs s"

text \<open>The range invariant of the data model: \<open>validFrom \<le> validTo\<close> when \<open>validTo\<close> is present.\<close>

definition rangeOk :: "int \<Rightarrow> int option \<Rightarrow> bool" where
  "rangeOk vFrom vTo = (case vTo of None \<Rightarrow> True | Some t \<Rightarrow> vFrom \<le> t)"

definition validRange :: "Assumption \<Rightarrow> bool" where
  "validRange a = rangeOk (validFrom a) (validTo a)"

section \<open>Task classification (utils/helpers.ts)\<close>

datatype TaskType = Latex | Problemset | Research | Rcode | Mixed

text \<open>The object \<open>keywords\<close> of the source, with its entries in the order they are
  written.\<close>

definition keywordSets :: "(TaskType \<times> string list) list" where
  "keywordSets =
     [(Latex, [''latex'', ''slides'', ''beamer'', ''compile'', ''tex'', ''macro'', ''polish'']),
      (Problemset, [''problem'', ''exercise'', ''solution'', ''homework'', ''assignment'', ''quiz'']),
      (Research, [''research'', ''literature'', ''citation'', ''bibtex'', ''paper'', ''reference'',
                  ''background'']),
      (Rcode, [''r code'', ''r script'', ''rstudio'', ''analysis'', ''data'', ''plot'',
               ''simulation''])]"

text \<open>
  \<open>classifyTask\<close>. The last branch returns the key of the first entry of \<open>matches\<close>
  that is true, through \<open>find(...)?.[0]\<close>, which is \<open>undefined\<close> when there is none:
  the result is an option, \<open>None\<close> standing for \<open>undefined\<close>.
\<close>

definition classifyTask :: "string \<Rightarrow> TaskType option" where
  "classifyTask taskDescription =
     (let lower = toLowerCase taskDescription;
          matches = map (\<lambda>(k, kws). (k, list_ex (\<lambda>kw. includes_str lower kw) kws)) keywordSets;
          matchCount = length (filter (\<lambda>b. b) (map snd matches))
      in if matchCount = 0 then Some Mixed
         else if matchCount > 1 then Some Mixed
         else map_option fst (find (\<lambda>(_, matched). matched) matches))"

text \<open>
  Whether a keyword of a family occurs in the lowercased text: the reading of the
  classification policy that \<open>classifyTask\<close> is compared with.
\<close>

definition familyMatches :: "string \<Rightarrow> TaskType \<Rightarrow> bool" where
  "familyMatches text fam =
     (case map_of keywordSets fam of
        None \<Rightarrow> False
      | Some kws \<Rightarrow> list_ex (\<lambda>kw. includes_str (toLowerCase text) kw) kws)"

section \<open>Results, change log and collaborators (types/index.ts, tools/fs\_tools.ts)\<close>

record SubAgentResult =
  agentType :: string
  success :: bool
  r_output :: string
  files :: "string list option"
  errors :: "string list option"

record VerificationResult =
  passed :: bool
  issues :: "string list"
  warnings :: "string list"

record ChangeLogEntry =
  timestamp :: string
  agent :: string
  action :: string
  c_files :: "string list"
  description :: string

datatype error = UnknownAgent string | AccessDenied string | TypeError | IllTyped

text \<open>
  \<open>createChangeLogEntry\<close> reads the clock; the reading is its first argument here.
\<close>

definition createChangeLogEntry ::
  "string \<Rightarrow> string \<Rightarrow> string \<Rightarrow> string list \<Rightarrow> string \<Rightarrow> ChangeLogEntry" where
  "createChangeLogEntry now agentName act fls descr =
     \<lparr>timestamp = now, agent = agentName, action = act, c_files = fls, description = descr\<rparr>"

text \<open>
  The sandboxed file collaborator is given by two predicates on paths: whether the path
  resolves inside the base directory (\<open>validatePath\<close> throws when it does not) and
  whether \<open>fs.access\<close> succeeds on it.
\<close>

record FileSystemTools =
  insideSandbox :: "string \<Rightarrow> bool"
  accessible :: "string \<Rightarrow> bool"

definition fs_exists :: "FileSystemTools \<Rightarrow> string \<Rightarrow> error + bool" where
  "fs_exists t filePath =
     (if \<not> insideSandbox t filePath then Inl (AccessDenied filePath)
      else Inr (accessible t filePath))"

section \<open>The orchestrator (agents/master.ts)\<close>

text \<open>
  The fields of a \<open>MasterTA\<close>. Each handler is the function its \<open>execute\<close> method
  computes from the task and the optional context: a handler catches its own failures
  and always returns a result.
\<close>

record MasterTA =
  fs :: FileSystemTools
  courseState :: CourseState
  latexTA :: "string \<Rightarrow> string option \<Rightarrow> SubAgentResult"
  problemSetTA :: "string \<Rightarrow> string option \<Rightarrow> SubAgentResult"
  researchTA :: "string \<Rightarrow> string option \<Rightarrow> SubAgentResult"
  rcodeTA :: "string \<Rightarrow> string option \<Rightarrow> SubAgentResult"
  changeLog :: "ChangeLogEntry list"
  lastVerification :: VerificationResult

record TaskPlan =
  taskType :: "TaskType option"
  agents :: "string list"
  parallel :: bool

text \<open>
  \<open>createPlan\<close>: \<open>planFor\<close> is the switch on the task type with the return statement,
  \<open>createPlan\<close> runs it on the classification of the task. No case of the switch
  matches \<open>undefined\<close>.
\<close>

definition planFor :: "TaskType option \<Rightarrow> string \<Rightarrow> TaskPlan" where
  "planFor tt task =
     (case tt of
        Some Latex \<Rightarrow> \<lparr>taskType = tt, agents = [''LatexTA''], parallel = False\<rparr>
      | Some Problemset \<Rightarrow> \<lparr>taskType = tt, agents = [''ProblemSetTA''], parallel = False\<rparr>
      | Some Research \<Rightarrow> \<lparr>taskType = tt, agents = [''ResearchTA''], parallel = False\<rparr>
      | Some Rcode \<Rightarrow> \<lparr>taskType = tt, agents = [''RCodeTA''], parallel = False\<rparr>
      | Some Mixed \<Rightarrow>
          (let lower = toLowerCase task;
               a1 = (if includes_str lower ''latex'' \<or> includes_str lower ''slide''
                     then [''LatexTA''] else []);
               a2 = (if includes_str lower ''problem'' \<or> includes_str lower ''exercise''
                     then a1 @ [''ProblemSetTA''] else a1);
               a3 = (if includes_str lower ''research'' \<or> includes_str lower ''literature''
                     then a2 @ [''ResearchTA''] else a2);
               a4 = (if includes_str lower ''r code'' \<or> includes_str lower ''script''
                     then a3 @ [''RCodeTA''] else a3);
               a5 = (if length a4 = 0 then a4 @ [''ProblemSetTA'', ''LatexTA''] else a4)
           in \<lparr>taskType = tt, agents = a5, parallel = (length a5 > 1)\<rparr>)
      | None \<Rightarrow> \<lparr>taskType = tt, agents = [], parallel = False\<rparr>)"

definition createPlan :: "string \<Rightarrow> TaskPlan" where
  "createPlan task = planFor (classifyTask task) task"

text \<open>
  \<open>executeSubAgent\<close>: \<open>dispatch\<close> is the switch on the agent name, which throws on a
  name it does not know, and \<open>logResult\<close> is the block that follows it. The clock is a
  function of the position the new entry takes in the change log.
\<close>

definition dispatch :: "MasterTA \<Rightarrow> string \<Rightarrow> string \<Rightarrow> string option \<Rightarrow> error + SubAgentResult" where
  "dispatch self agentName task ctx =
     (if agentName = ''LatexTA'' then Inr (latexTA self task ctx)
      else if agentName = ''ProblemSetTA'' then Inr (problemSetTA self task ctx)
      else if agentName = ''ResearchTA'' then Inr (researchTA self task ctx)
      else if agentName = ''RCodeTA'' then Inr (rcodeTA self task ctx)
      else Inl (UnknownAgent agentName))"

definition logResult :: "(nat \<Rightarrow> string) \<Rightarrow> MasterTA \<Rightarrow> string \<Rightarrow> string \<Rightarrow> SubAgentResult \<Rightarrow> MasterTA" where
  "logResult clock self agentName task result =
     (if success result then
        self\<lparr>changeLog := changeLog self @
          [createChangeLogEntry (clock (length (changeLog self))) agentName ''execute''
             (case files result of None \<Rightarrow> [] | Some fls \<Rightarrow> fls)
             (''Completed task: '' @ take 60 task @ (if length task > 60 then ''...'' else []))]\<rparr>
      else self)"

definition executeSubAgent ::
  "(nat \<Rightarrow> string) \<Rightarrow> MasterTA \<Rightarrow> string \<Rightarrow> string \<Rightarrow> string option
     \<Rightarrow> error + (SubAgentResult \<times> MasterTA)" where
  "executeSubAgent clock self agentName task ctx =
     (case dispatch self agentName task ctx of
        Inl e \<Rightarrow> Inl e
      | Inr result \<Rightarrow> Inr (result, logResult clock self agentName task result))"

text \<open>
  \<open>delegateToAgents\<close>. The sequential branch runs the agents of the plan one after the
  other. In the parallel branch every \<open>executeSubAgent\<close> runs its switch when it is
  started and its logging block when its handler completes; \<open>completion\<close> lists the
  positions of the plan's agents in the order their handlers complete, and the results
  are returned in the order of the plan. An exception ends the step with the error.
\<close>

fun runSequential ::
  "(nat \<Rightarrow> string) \<Rightarrow> MasterTA \<Rightarrow> string list \<Rightarrow> string \<Rightarrow> string option \<Rightarrow> SubAgentResult list
     \<Rightarrow> error + (SubAgentResult list \<times> MasterTA)" where
  "runSequential clock self [] task ctx results = Inr (results, self)"
| "runSequential clock self (agentName # rest) task ctx results =
     (case executeSubAgent clock self agentName task ctx of
        Inl e \<Rightarrow> Inl e
      | Inr (result, self') \<Rightarrow> runSequential clock self' rest task ctx (results @ [result]))"

fun allResults :: "(error + 'a) list \<Rightarrow> error + 'a list" where
  "allResults [] = Inr []"
| "allResults (Inl e # ps) = Inl e"
| "allResults (Inr r # ps) = (case allResults ps of Inl e \<Rightarrow> Inl e | Inr rs \<Rightarrow> Inr (r # rs))"

definition runParallel ::
  "(nat \<Rightarrow> string) \<Rightarrow> MasterTA \<Rightarrow> string list \<Rightarrow> string \<Rightarrow> string option \<Rightarrow> nat list
     \<Rightarrow> error + (SubAgentResult list \<times> MasterTA)" where
  "runParallel clock self names task ctx completion =
     (case allResults (map (\<lambda>agentName. dispatch self agentName task ctx) names) of
        Inl e \<Rightarrow> Inl e
      | Inr results \<Rightarrow>
          Inr (results,
               fold (\<lambda>i self'. if i < length names
                                then logResult clock self' (names ! i) task (results ! i)
                                else self')
                    completion self))"

definition delegateToAgents ::
  "(nat \<Rightarrow> string) \<Rightarrow> MasterTA \<Rightarrow> TaskPlan \<Rightarrow> string \<Rightarrow> string option \<Rightarrow> nat list
     \<Rightarrow> error + (SubAgentResult list \<times> MasterTA)" where
  "delegateToAgents clock self plan task ctx completion =
     (if parallel plan then runParallel clock self (agents plan) task ctx completion
      else runSequential clock self (agents plan) task ctx [])"

text \<open>
  \<open>verify\<close>: the notation check, the warning for an empty file list, the loop over the
  files (which ends with the error when \<open>exists\<close> throws), and the result stored on the
  instance.
\<close>

record Integrated =
  i_output :: string
  i_files :: "string list"

fun checkFiles :: "FileSystemTools \<Rightarrow> string list \<Rightarrow> string list \<Rightarrow> error + string list" where
  "checkFiles t [] found = Inr found"
| "checkFiles t (file # rest) found =
     (case fs_exists t file of
        Inl e \<Rightarrow> Inl e
      | Inr ex \<Rightarrow> checkFiles t rest (if \<not> ex then found @ [''File not found: '' @ file] else found))"

definition verify :: "MasterTA \<Rightarrow> Integrated \<Rightarrow> error + (VerificationResult \<times> MasterTA)" where
  "verify self integrated =
     (let notationCheck = verifyNotationConsistency (courseState self);
          issues0 = (if \<not> consistent notationCheck then conflicts notationCheck else []);
          warnings0 = (if length (i_files integrated) = 0 then [''No files were generated'']
                       else [])
      in case checkFiles (fs self) (i_files integrated) issues0 of
           Inl e \<Rightarrow> Inl e
         | Inr issues1 \<Rightarrow>
             (let r = \<lparr>passed = (length issues1 = 0), issues = issues1, warnings = warnings0\<rparr>
              in Inr (r, self\<lparr>lastVerification := r\<rparr>)))"

text \<open>
  The keywords of the four \<open>if\<close> statements of the mixed case, by the handler each
  of them pushes, and whether one of a handler's keywords occurs in the lowercased task.
\<close>

definition planKeywords :: "(string \<times> string list) list" where
  "planKeywords =
     [(''LatexTA'', [''latex'', ''slide'']),
      (''ProblemSetTA'', [''problem'', ''exercise'']),
      (''ResearchTA'', [''research'', ''literature'']),
      (''RCodeTA'', [''r code'', ''script''])]"

definition rescanMatches :: "string \<Rightarrow> string \<Rightarrow> bool" where
  "rescanMatches task handler =
     (case map_of planKeywords handler of
        None \<Rightarrow> False
      | Some kws \<Rightarrow> list_ex (\<lambda>kw. includes_str (toLowerCase task) kw) kws)"

text \<open>The two result constructors of the base agent (agents/base\_agent.ts).\<close>

definition createSuccessResult :: "string \<Rightarrow> string \<Rightarrow> string list option \<Rightarrow> SubAgentResult" where
  "createSuccessResult agentName out fls =
     \<lparr>agentType = agentName, success = True, r_output = out,
      files = Some (case fls of None \<Rightarrow> [] | Some f \<Rightarrow> f), errors = None\<rparr>"

definition createErrorResult :: "string \<Rightarrow> string \<Rightarrow> SubAgentResult" where
  "createErrorResult agentName errorMessage =
     \<lparr>agentType = agentName, success = False, r_output = [],
      files = None, errors = Some [errorMessage]\<rparr>"

text \<open>
  The entry that \<open>executeSubAgent\<close> appends for a successful result, what an entry
  records of its handler (the agent and the files), and what a handler's result is
  expected to leave in the log.
\<close>

definition entryFor :: "(nat \<Rightarrow> string) \<Rightarrow> nat \<Rightarrow> string \<Rightarrow> string \<Rightarrow> SubAgentResult \<Rightarrow> ChangeLogEntry" where
  "entryFor clock pos agentName task result =
     createChangeLogEntry (clock pos) agentName ''execute''
       (case files result of None \<Rightarrow> [] | Some fls \<Rightarrow> fls)
       (''Completed task: '' @ take 60 task @ (if length task > 60 then ''...'' else []))"

definition logged :: "ChangeLogEntry \<Rightarrow> string \<times> string list" where
  "logged e = (agent e, c_files e)"

definition expected :: "string \<times> SubAgentResult \<Rightarrow> string \<times> string list" where
  "expected p = (fst p, case files (snd p) of None \<Rightarrow> [] | Some fls \<Rightarrow> fls)"

section \<open>Persistence (toJSON and fromJSON of course\_state.ts)\<close>

text \<open>
  The persisted document is modelled by the JSON value that \<open>JSON.parse\<close> reads back
  from the text \<open>JSON.stringify\<close> writes: the two library functions are taken to be
  inverse to each other on JSON values, and numbers are the integers. An object is the
  list of its properties; a property read gives \<open>undefined\<close> (\<open>None\<close>) when the
  property is missing or the value is not an object, and the last of several
  properties of one name counts.
\<close>

datatype json =
    JNull
  | JBool bool
  | JNumber int
  | JString string
  | JArray "json list"
  | JObject "(string \<times> json) list"

definition getProp :: "json \<Rightarrow> string \<Rightarrow> json option" where
  "getProp j k = (case j of JObject kvs \<Rightarrow> map_of (rev kvs) k | _ \<Rightarrow> None)"

text \<open>What \<open>JSON.stringify\<close> writes for the values of the state's fields. A property
  whose value is \<open>undefined\<close> is left out.\<close>

definition optional :: "string \<Rightarrow> json option \<Rightarrow> (string \<times> json) list" where
  "optional k v = (case v of None \<Rightarrow> [] | Some j \<Rightarrow> [(k, j)])"

definition strings_json :: "string list \<Rightarrow> json" where
  "strings_json xs = JArray (map JString xs)"

definition Language_string :: "Language \<Rightarrow> string" where
  "Language_string l = (case l of En \<Rightarrow> ''en'' | De \<Rightarrow> ''de'')"

definition Level_string :: "Level \<Rightarrow> string" where
  "Level_string l =
     (case l of Remember \<Rightarrow> ''remember'' | Understand \<Rightarrow> ''understand'' | Apply \<Rightarrow> ''apply''
      | Analyze \<Rightarrow> ''analyze'' | Evaluate \<Rightarrow> ''evaluate'' | Create \<Rightarrow> ''create'')"

definition LearningObjective_json :: "LearningObjective \<Rightarrow> json" where
  "LearningObjective_json ob =
     JObject ([(''id'', JString (lo_id ob)),
               (''description'', JString (lo_description ob)),
               (''level'', JString (Level_string (level ob)))]
              @ optional ''lectureNumber'' (map_option JNumber (lectureNumber ob)))"

definition NotationEntry_json :: "NotationEntry \<Rightarrow> json" where
  "NotationEntry_json n =
     JObject ([(''symbol'', JString (symbol n)),
               (''meaning'', JString (meaning n)),
               (''introducedIn'', JNumber (introducedIn n))]
              @ optional ''context'' (map_option JString (n_context n)))"

definition Assumption_json :: "Assumption \<Rightarrow> json" where
  "Assumption_json a =
     JObject ([(''id'', JString (a_id a)),
               (''description'', JString (a_description a)),
               (''introducedIn'', JNumber (a_introducedIn a)),
               (''validFrom'', JNumber (validFrom a))]
              @ optional ''validTo'' (map_option JNumber (validTo a)))"

definition LectureMetadata_json :: "LectureMetadata \<Rightarrow> json" where
  "LectureMetadata_json l =
     JObject [(''number'', JNumber (number l)),
              (''title'', JString (title l)),
              (''objectives'', strings_json (objectives l)),
              (''prerequisites'', strings_json (prerequisites l)),
              (''notationIntroduced'', strings_json (notationIntroduced l)),
              (''assumptionsIntroduced'', strings_json (assumptionsIntroduced l)),
              (''files'', strings_json (l_files l))]"

definition toJSON :: "CourseState \<Rightarrow> json" where
  "toJSON s =
     JObject [(''courseName'', JString (courseName s)),
              (''language'', JString (Language_string (language s))),
              (''syllabus'', JString (syllabus s)),
              (''learningObjectives'', JArray (map LearningObjective_json (learningObjectives s))),
              (''notationRegistry'', JArray (map NotationEntry_json (notationRegistry s))),
              (''assumptions'', JArray (map Assumption_json (assumptions s))),
              (''lectures'',
                 JArray (map (\<lambda>(k, v). JArray [JNumber k, LectureMetadata_json v]) (lectures s)))]"

text \<open>
  \<open>fromJSON\<close> stores what it reads without looking at it. Reading a value at the type
  its field declares gives \<open>None\<close> when the value is of another type: the code then
  returns an object that is no \<open>CourseState\<close>, which is the error \<open>IllTyped\<close> here.
\<close>

definition asString :: "json option \<Rightarrow> string option" where
  "asString v = (case v of Some (JString s) \<Rightarrow> Some s | _ \<Rightarrow> None)"

definition asNumber :: "json option \<Rightarrow> int option" where
  "asNumber v = (case v of Some (JNumber n) \<Rightarrow> Some n | _ \<Rightarrow> None)"

definition asOptional :: "(json option \<Rightarrow> 'a option) \<Rightarrow> json option \<Rightarrow> 'a option option" where
  "asOptional f v = (case v of None \<Rightarrow> Some None | Some j \<Rightarrow> map_option Some (f (Some j)))"

definition asArray :: "(json option \<Rightarrow> 'a option) \<Rightarrow> json option \<Rightarrow> 'a list option" where
  "asArray f v = (case v of Some (JArray js) \<Rightarrow> those (map (\<lambda>j. f (Some j)) js) | _ \<Rightarrow> None)"

definition asLevel :: "json option \<Rightarrow> Level option" where
  "asLevel v =
     (case asString v of
        None \<Rightarrow> None
      | Some s \<Rightarrow> find (\<lambda>l. Level_string l = s)
                   [Remember, Understand, Apply, Analyze, Evaluate, Create])"

text \<open>The constructor's default applies when the language read from the document is
  \<open>undefined\<close>.\<close>

definition asLanguageArg :: "json option \<Rightarrow> Language option option" where
  "asLanguageArg v =
     (case v of
        None \<Rightarrow> Some None
      | Some j \<Rightarrow> (case asString (Some j) of
                    None \<Rightarrow> None
                  | Some s \<Rightarrow> map_option Some (find (\<lambda>l. Language_string l = s) [En, De])))"

definition asLearningObjective :: "json option \<Rightarrow> LearningObjective option" where
  "asLearningObjective v =
     (case v of
        None \<Rightarrow> None
      | Some j \<Rightarrow>
          do {
            i \<leftarrow> asString (getProp j ''id'');
            d \<leftarrow> asString (getProp j ''description'');
            l \<leftarrow> asLevel (getProp j ''level'');
            n \<leftarrow> asOptional asNumber (getProp j ''lectureNumber'');
            Some \<lparr>lo_id = i, lo_description = d, level = l, lectureNumber = n\<rparr>
          })"

definition asNotationEntry :: "json option \<Rightarrow> NotationEntry option" where
  "asNotationEntry v =
     (case v of
        None \<Rightarrow> None
      | Some j \<Rightarrow>
          do {
            s \<leftarrow> asString (getProp j ''symbol'');
            m \<leftarrow> asString (getProp j ''meaning'');
            i \<leftarrow> asNumber (getProp j ''introducedIn'');
            c \<leftarrow> asOptional asString (getProp j ''context'');
            Some \<lparr>symbol = s, meaning = m, introducedIn = i, n_context = c\<rparr>
          })"

definition asAssumption :: "json option \<Rightarrow> Assumption option" where
  "asAssumption v =
     (case v of
        None \<Rightarrow> None
      | Some j \<Rightarrow>
          do {
            i \<leftarrow> asString (getProp j ''id'');
            d \<leftarrow> asString (getProp j ''description'');
            n \<leftarrow> asNumber (getProp j ''introducedIn'');
            f \<leftarrow> asNumber (getProp j ''validFrom'');
            t \<leftarrow> asOptional asNumber (getProp j ''validTo'');
            Some \<lparr>a_id = i, a_description = d, a_introducedIn = n, validFrom = f, validTo = t\<rparr>
          })"

definition asLectureMetadata :: "json option \<Rightarrow> LectureMetadata option" where
  "asLectureMetadata v =
     (case v of
        None \<Rightarrow> None
      | Some j \<Rightarrow>
          do {
            n \<leftarrow> asNumber (getProp j ''number'');
            t \<leftarrow> asString (getProp j ''title'');
            ob \<leftarrow> asArray asString (getProp j ''objectives'');
            pr \<leftarrow> asArray asString (getProp j ''prerequisites'');
            ni \<leftarrow> asArray asString (getProp j ''notationIntroduced'');
            ai \<leftarrow> asArray asString (getProp j ''assumptionsIntroduced'');
            fl \<leftarrow> asArray asString (getProp j ''files'');
            Some \<lparr>number = n, title = t, objectives = ob, prerequisites = pr,
                  notationIntroduced = ni, assumptionsIntroduced = ai, l_files = fl\<rparr>
          })"

text \<open>
  \<open>new Map(data.lectures)\<close>: \<open>undefined\<close> and \<open>null\<close> give the empty map; an array
  is read entry by entry, an entry being an object whose properties \<open>0\<close> and \<open>1\<close> are
  the key and the value; the constructor throws on an entry that is no object and on a
  value that cannot be iterated.
\<close>

fun entryOf :: "json \<Rightarrow> error + (json option \<times> json option)" where
  "entryOf (JArray xs) =
     Inr (if 0 < length xs then Some (xs ! 0) else None,
          if 1 < length xs then Some (xs ! 1) else None)"
| "entryOf (JObject kvs) = Inr (getProp (JObject kvs) ''0'', getProp (JObject kvs) ''1'')"
| "entryOf j = Inl TypeError"

definition entriesOf :: "json option \<Rightarrow> error + (json option \<times> json option) list" where
  "entriesOf v =
     (case v of
        None \<Rightarrow> Inr []
      | Some JNull \<Rightarrow> Inr []
      | Some (JArray es) \<Rightarrow> allResults (map entryOf es)
      | Some (JString s) \<Rightarrow> (if s = [] then Inr [] else Inl TypeError)
      | Some j \<Rightarrow> Inl TypeError)"

definition asLectureEntry :: "json option \<times> json option \<Rightarrow> (int \<times> LectureMetadata) option" where
  "asLectureEntry e =
     do {
       k \<leftarrow> asNumber (fst e);
       m \<leftarrow> asLectureMetadata (snd e);
       Some (k, m)
     }"

definition fromJSON :: "json \<Rightarrow> error + CourseState" where
  "fromJSON data =
     (if data = JNull then Inl TypeError
      else
        (case entriesOf (getProp data ''lectures'') of
           Inl e \<Rightarrow> Inl e
         | Inr entries \<Rightarrow>
             (case do {
                     name \<leftarrow> asString (getProp data ''courseName'');
                     lang \<leftarrow> asLanguageArg (getProp data ''language'');
                     syl \<leftarrow> asString (getProp data ''syllabus'');
                     los \<leftarrow> asArray asLearningObjective (getProp data ''learningObjectives'');
                     reg \<leftarrow> asArray asNotationEntry (getProp data ''notationRegistry'');
                     ass \<leftarrow> asArray asAssumption (getProp data ''assumptions'');
                     lecs \<leftarrow> those (map asLectureEntry entries);
                     Some ((CourseState_new name lang)
                             \<lparr>syllabus := syl,
                              learningObjectives := los,
                              notationRegistry := reg,
                              assumptions := ass,
                              lectures := Map_new lecs\<rparr>)
                   } of
                None \<Rightarrow> Inl IllTyped
              | Some s \<Rightarrow> Inr s)))"

section \<open>Sample inputs\<close>

text \<open>
  A course state with the symbol Q registered once, the state after Q is registered a
  second time with another meaning, and an orchestrator whose handlers
  return fixed results: the document-polish handler succeeds with one file, the
  problem-set handler succeeds with no file, the research handler fails, the code-script
  handler succeeds with two files. Of all files only \<open>lecture3.tex\<close> exists.
\<close>

definition stateQ :: CourseState where
  "stateQ = registerNotation (CourseState_new ''Microeconomics'' None) ''Q'' ''quantity'' 1 None"

definition stateQQ :: CourseState where
  "stateQQ = registerNotation stateQ ''Q'' ''quality'' 4 None"

definition sampleClock :: "nat \<Rightarrow> string" where
  "sampleClock n = ''2024-01-01T00:00:0'' @ decimal n @ ''.000Z''"

definition sampleMaster :: "CourseState \<Rightarrow> MasterTA" where
  "sampleMaster cs =
     \<lparr>fs = \<lparr>insideSandbox = (\<lambda>p. take 2 p \<noteq> ''..''), accessible = (\<lambda>p. p = ''lecture3.tex'')\<rparr>,
      courseState = cs,
      latexTA = (\<lambda>task ctx. createSuccessResult ''LatexTA'' ''polished'' (Some [''lecture3.tex''])),
      problemSetTA = (\<lambda>task ctx. createSuccessResult ''ProblemSetTA'' ''no file written'' None),
      researchTA = (\<lambda>task ctx. createErrorResult ''ResearchTA'' ''request failed''),
      rcodeTA = (\<lambda>task ctx. createSuccessResult ''RCodeTA'' ''scripts''
                                 (Some [''analysis.R'', ''plot.R''])),
      changeLog = [],
      lastVerification = \<lparr>passed = True, issues = [], warnings = []\<rparr>\<rparr>"

text \<open>A parallel plan of three handlers and an order in which they complete: the second,
  the third, the first.\<close>

definition samplePlan :: TaskPlan where
  "samplePlan = \<lparr>taskType = Some Mixed, agents = [''LatexTA'', ''ProblemSetTA'', ''ResearchTA''],
                 parallel = True\<rparr>"

definition sampleCompletion :: "nat list" where
  "sampleCompletion = [1, 2, 0]"

text \<open>A course state with a notation entry, an assumption and a lecture.\<close>

definition stateL :: CourseState where
  "stateL =
     updateLecture (snd (registerAssumption stateQ ''perfect competition'' 1 1 None))
       \<lparr>number = 3, title = ''Monopoly'', objectives = [''markup''], prerequisites = [],
        notationIntroduced = [''Q''], assumptionsIntroduced = [''assumption_1''],
        l_files = [''lecture3.tex'']\<rparr>"

section \<open>Properties of the course state\<close>

lemma mutateFirst_length: "length (mutateFirst P f xs) = length xs"
  by (induction xs) auto

lemma mutateFirst_map_inv: "(\<And>x. g (f x) = g x) \<Longrightarrow> map g (mutateFirst P f xs) = map g xs"
  by (induction xs) auto

lemma find_None_notin: "find (\<lambda>n. g n = k) xs = None \<Longrightarrow> k \<notin> g ` set xs"
  by (induction xs) (auto split: if_splits)

lemma registerNotation_symbols:
  "map symbol (notationRegistry (registerNotation s symb mng lec ctx)) =
     (if symb \<in> symbol ` set (notationRegistry s) then map symbol (notationRegistry s)
      else map symbol (notationRegistry s) @ [symb])"
proof (cases "find (\<lambda>n. symbol n = symb) (notationRegistry s)")
  case None
  then show ?thesis
    using find_None_notin [OF None] by (simp add: registerNotation_def)
next
  case (Some e)
  then have "symb \<in> symbol ` set (notationRegistry s)"
    by (auto simp: find_Some_iff)
  with Some show ?thesis
    by (simp add: registerNotation_def mutateFirst_map_inv)
qed

lemma registerNotation_distinct:
  "distinct (map symbol (notationRegistry s)) \<Longrightarrow>
   distinct (map symbol (notationRegistry (registerNotation s symb mng lec ctx)))"
  by (simp add: registerNotation_symbols)

lemma registerNotations_distinct:
  "distinct (map symbol (notationRegistry s)) \<Longrightarrow>
   distinct (map symbol (notationRegistry (registerNotations s cs)))"
proof (induction cs arbitrary: s)
  case Nil
  then show ?case by (simp add: registerNotations_def)
next
  case (Cons c cs)
  obtain symb mng lec ctx where c: "c = (symb, mng, lec, ctx)" by (cases c) auto
  have "registerNotations s (c # cs) = registerNotations (registerNotation s symb mng lec ctx) cs"
    by (simp add: registerNotations_def c)
  with Cons show ?case by (simp add: registerNotation_distinct)
qed

lemma distinct_map_filter_le1: "distinct (map g xs) \<Longrightarrow> length (filter (\<lambda>x. g x = k) xs) \<le> Suc 0"
  by (induction xs) (auto simp: filter_empty_conv image_iff)

lemma mutateFirst_find:
  "find P xs = Some e \<Longrightarrow> (\<And>x. P x \<Longrightarrow> P (f x)) \<Longrightarrow> find P (mutateFirst P f xs) = Some (f e)"
  by (induction xs) (auto split: if_splits)

lemma mutateFirst_filter_other:
  "(\<And>x. P x \<Longrightarrow> P (f x)) \<Longrightarrow> filter (\<lambda>x. \<not> P x) (mutateFirst P f xs) = filter (\<lambda>x. \<not> P x) xs"
  by (induction xs) auto

lemma Set_new_snoc: "Set_new (xs @ [x]) = Set_add (Set_new xs) x"
  by (simp add: Set_new_def)

lemma Set_new_set [simp]: "set (Set_new xs) = set xs"
  by (induction xs rule: rev_induct) (auto simp: Set_new_snoc Set_add_def, simp add: Set_new_def)

lemma Set_new_distinct [simp]: "distinct (Set_new xs)"
  by (induction xs rule: rev_induct) (auto simp: Set_new_snoc Set_add_def, simp add: Set_new_def)

lemma Set_new_length: "length (Set_new xs) = card (set xs)"
  using distinct_card [OF Set_new_distinct, of xs] by simp

lemma Map_get_keyed:
  "Map_get (map (\<lambda>k. (k, g k)) ks) k = (if k \<in> set ks then Some (g k) else None)"
  by (induction ks) auto

lemma Map_set_keyed:
  "distinct ks \<Longrightarrow> Map_set (map (\<lambda>k. (k, g k)) ks) k v =
     map (\<lambda>k'. (k', if k' = k then v else g k')) (Set_add ks k)"
  by (induction ks) (auto simp: Set_add_def)

lemma groupBySymbol_snoc:
  "groupBySymbol (xs @ [x]) =
     (let m = groupBySymbol xs in
      Map_set m (symbol x) ((case Map_get m (symbol x) of None \<Rightarrow> [] | Some es \<Rightarrow> es) @ [x]))"
  by (simp add: groupBySymbol_def Let_def)

lemma groupBySymbol_closed:
  "groupBySymbol registry =
     map (\<lambda>k. (k, filter (\<lambda>n. symbol n = k) registry)) (Set_new (map symbol registry))"
proof (induction registry rule: rev_induct)
  case Nil
  show ?case by (simp add: groupBySymbol_def Set_new_def)
next
  case (snoc x xs)
  let ?ks = "Set_new (map symbol xs)"
  let ?g = "\<lambda>k. filter (\<lambda>n. symbol n = k) xs"
  have notin: "symbol x \<notin> symbol ` set xs \<Longrightarrow> ?g (symbol x) = []"
    by (auto simp: filter_empty_conv image_iff)
  have "groupBySymbol (xs @ [x]) =
          Map_set (map (\<lambda>k. (k, ?g k)) ?ks) (symbol x) (?g (symbol x) @ [x])"
    using notin by (simp add: groupBySymbol_snoc snoc Map_get_keyed Let_def)
  also have "\<dots> = map (\<lambda>k'. (k', if k' = symbol x then ?g (symbol x) @ [x] else ?g k')) (Set_add ?ks (symbol x))"
    by (rule Map_set_keyed) simp
  also have "\<dots> = map (\<lambda>k. (k, filter (\<lambda>n. symbol n = k) (xs @ [x]))) (Set_new (map symbol (xs @ [x])))"
    by (auto simp: Set_new_snoc)
  finally show ?case .
qed

lemma conflictsOf_fold:
  "fold (\<lambda>(symb, entries) conflicts.
             (let meanings = Set_new (map meaning entries)
              in if length meanings > 1 then conflicts @ [conflictMessage symb meanings]
                 else conflicts)) m acc =
   acc @ map (\<lambda>(symb, entries). conflictMessage symb (Set_new (map meaning entries)))
          (filter (\<lambda>(symb, entries). 1 < length (Set_new (map meaning entries))) m)"
  by (induction m arbitrary: acc) (auto simp: Let_def)

lemma conflictsOf_closed:
  "conflictsOf m =
   map (\<lambda>(symb, entries). conflictMessage symb (Set_new (map meaning entries)))
          (filter (\<lambda>(symb, entries). 1 < length (Set_new (map meaning entries))) m)"
  unfolding conflictsOf_def conflictsOf_fold by simp

lemma conflicts_closed:
  "conflicts (verifyNotationConsistency s) =
     map (\<lambda>symb. conflictMessage symb
                   (Set_new (map meaning (filter (\<lambda>n. symbol n = symb) (notationRegistry s)))))
         (filter (\<lambda>symb. 1 < card (meaning ` {n \<in> set (notationRegistry s). symbol n = symb}))
                 (Set_new (map symbol (notationRegistry s))))"
  by (simp add: verifyNotationConsistency_def Let_def conflictsOf_closed groupBySymbol_closed
        filter_map comp_def Set_new_length)

lemma conflicts_distinct_symbols:
  assumes "distinct (map symbol (notationRegistry s))"
  shows "conflicts (verifyNotationConsistency s) = []"
proof -
  have "card (meaning ` {n \<in> set (notationRegistry s). symbol n = symb}) \<le> 1" for symb
  proof -
    have "card (meaning ` set (filter (\<lambda>n. symbol n = symb) (notationRegistry s)))
            \<le> length (filter (\<lambda>n. symbol n = symb) (notationRegistry s))"
      by (metis card_length length_map set_map)
    also have "\<dots> \<le> 1" using distinct_map_filter_le1 [OF assms] by simp
    finally show ?thesis by simp
  qed
  then have "\<not> 1 < card (meaning ` {n \<in> set (notationRegistry s). symbol n = symb})" for symb
    by (simp add: not_less)
  then show ?thesis by (simp add: conflicts_closed)
qed

lemma registerNotation_existing:
  assumes "find (\<lambda>n. symbol n = symb) (notationRegistry s) = Some e"
  shows "notationRegistry (registerNotation s symb mng lec ctx) =
           mutateFirst (\<lambda>n. symbol n = symb)
             (\<lambda>n. n\<lparr>meaning := mng, n_context := (if truthy ctx then ctx else n_context n)\<rparr>)
             (notationRegistry s)"
proof -
  have "(\<lambda>n::NotationEntry. if truthy ctx then n\<lparr>meaning := mng, n_context := ctx\<rparr> else n\<lparr>meaning := mng\<rparr>)
        = (\<lambda>n. n\<lparr>meaning := mng, n_context := (if truthy ctx then ctx else n_context n)\<rparr>)"
    by (rule ext) simp
  with assms show ?thesis by (simp add: registerNotation_def)
qed

lemma stateQ_registry:
  "notationRegistry stateQ = [\<lparr>symbol = ''Q'', meaning = ''quantity'', introducedIn = 1, n_context = None\<rparr>]"
  by (simp add: stateQ_def registerNotation_def CourseState_new_def)

text \<open>
  Claim C10. After any sequence of \<open>registerNotation\<close> calls on a new course state the
  registry holds at most one entry per symbol, and the calls keep the symbols of any
  registry distinct that were so before. Registering a symbol that has an entry keeps
  the length of the registry, its symbols and its lecture numbers; the entry of the
  symbol gets the new meaning, and the new context when one is given and not empty; the
  entries of the other symbols stay as they are.
\<close>

theorem registerNotation_one_entry_per_symbol:
  "length (filter (\<lambda>n. symbol n = symb)
             (notationRegistry (registerNotations (CourseState_new name lang) cs))) \<le> 1
   \<and> (distinct (map symbol (notationRegistry s0)) \<longrightarrow>
        distinct (map symbol (notationRegistry (registerNotations s0 cs))))
   \<and> (find (\<lambda>n. symbol n = symb) (notationRegistry s) = Some e \<longrightarrow>
        length (notationRegistry (registerNotation s symb mng lec ctx)) = length (notationRegistry s)
        \<and> map symbol (notationRegistry (registerNotation s symb mng lec ctx))
            = map symbol (notationRegistry s)
        \<and> map introducedIn (notationRegistry (registerNotation s symb mng lec ctx))
            = map introducedIn (notationRegistry s)
        \<and> find (\<lambda>n. symbol n = symb) (notationRegistry (registerNotation s symb mng lec ctx))
            = Some \<lparr>symbol = symb, meaning = mng, introducedIn = introducedIn e,
                    n_context = (if truthy ctx then ctx else n_context e)\<rparr>
        \<and> filter (\<lambda>n. symbol n \<noteq> symb) (notationRegistry (registerNotation s symb mng lec ctx))
            = filter (\<lambda>n. symbol n \<noteq> symb) (notationRegistry s))"
proof (intro conjI impI)
  have "distinct (map symbol (notationRegistry (CourseState_new name lang)))"
    by (simp add: CourseState_new_def)
  then have "distinct (map symbol (notationRegistry (registerNotations (CourseState_new name lang) cs)))"
    by (rule registerNotations_distinct)
  then show "length (filter (\<lambda>n. symbol n = symb)
             (notationRegistry (registerNotations (CourseState_new name lang) cs))) \<le> 1"
    using distinct_map_filter_le1 by fastforce
next
  assume "distinct (map symbol (notationRegistry s0))"
  then show "distinct (map symbol (notationRegistry (registerNotations s0 cs)))"
    by (rule registerNotations_distinct)
next
  assume f: "find (\<lambda>n. symbol n = symb) (notationRegistry s) = Some e"
  note r = registerNotation_existing [OF f]
  show "length (notationRegistry (registerNotation s symb mng lec ctx)) = length (notationRegistry s)"
    by (simp add: r mutateFirst_length)
  show "map symbol (notationRegistry (registerNotation s symb mng lec ctx))
          = map symbol (notationRegistry s)"
    by (simp add: r mutateFirst_map_inv)
  show "map introducedIn (notationRegistry (registerNotation s symb mng lec ctx))
            = map introducedIn (notationRegistry s)"
    by (simp add: r mutateFirst_map_inv)
  have "symbol e = symb" using f by (auto simp: find_Some_iff)
  then show "find (\<lambda>n. symbol n = symb) (notationRegistry (registerNotation s symb mng lec ctx))
            = Some \<lparr>symbol = symb, meaning = mng, introducedIn = introducedIn e,
                    n_context = (if truthy ctx then ctx else n_context e)\<rparr>"
    using mutateFirst_find [OF f,
        of "\<lambda>n. n\<lparr>meaning := mng, n_context := (if truthy ctx then ctx else n_context n)\<rparr>"]
    by (cases e) (simp add: r)
  show "filter (\<lambda>n. symbol n \<noteq> symb) (notationRegistry (registerNotation s symb mng lec ctx))
            = filter (\<lambda>n. symbol n \<noteq> symb) (notationRegistry s)"
    using mutateFirst_filter_other [of "\<lambda>n. symbol n = symb"
        "\<lambda>n. n\<lparr>meaning := mng, n_context := (if truthy ctx then ctx else n_context n)\<rparr>"
        "notationRegistry s"]
    by (simp add: r)
qed

theorem registerNotation_one_entry_per_symbol_witness:
  "distinct (map symbol (notationRegistry (registerNotations stateQ
      [(''P'', ''price'', 2, None), (''Q'', ''quality'', 4, Some ''demand'')])))
   \<and> length (notationRegistry (registerNotation stateQ ''Q'' ''quality'' 4 None)) = 1
   \<and> find (\<lambda>n. symbol n = ''Q'') (notationRegistry (registerNotation stateQ ''Q'' ''quality'' 4 None))
       = Some \<lparr>symbol = ''Q'', meaning = ''quality'', introducedIn = 1, n_context = None\<rparr>"
proof -
  let ?e = "\<lparr>symbol = ''Q'', meaning = ''quantity'', introducedIn = 1, n_context = None\<rparr>"
  have d: "distinct (map symbol (notationRegistry stateQ))"
    by (simp add: stateQ_registry)
  have f: "find (\<lambda>n. symbol n = ''Q'') (notationRegistry stateQ) = Some ?e"
    by (simp add: stateQ_registry)
  have l: "length (notationRegistry stateQ) = 1" "introducedIn ?e = 1"
    "(if truthy None then None else n_context ?e) = None"
    by (simp_all add: stateQ_registry truthy_def)
  from registerNotation_one_entry_per_symbol
    [of "''Q''" "''Microeconomics''" None
        "[(''P'', ''price'', 2, None), (''Q'', ''quality'', 4, Some ''demand'')]"
        stateQ stateQ ?e "''quality''" 4 None] d f
  have "distinct (map symbol (notationRegistry (registerNotations stateQ
          [(''P'', ''price'', 2, None), (''Q'', ''quality'', 4, Some ''demand'')])))"
    and "length (notationRegistry (registerNotation stateQ ''Q'' ''quality'' 4 None))
          = length (notationRegistry stateQ)"
    and "find (\<lambda>n. symbol n = ''Q'') (notationRegistry (registerNotation stateQ ''Q'' ''quality'' 4 None))
          = Some \<lparr>symbol = ''Q'', meaning = ''quality'', introducedIn = introducedIn ?e,
                  n_context = (if truthy None then None else n_context ?e)\<rparr>"
    by blast+
  then show ?thesis
    unfolding l by simp
qed

lemma stateQQ_registry:
  "notationRegistry stateQQ
     = [\<lparr>symbol = ''Q'', meaning = ''quality'', introducedIn = 1, n_context = None\<rparr>]"
  by (simp add: stateQQ_def stateQ_registry registerNotation_def truthy_def)

lemma stateQQ_conflicts:
  "verifyNotationConsistency stateQQ = \<lparr>consistent = True, conflicts = []\<rparr>"
  by (simp add: verifyNotationConsistency_def stateQQ_registry groupBySymbol_def conflictsOf_def
        Set_new_def Set_add_def)

text \<open>
  A registry that holds two entries of one symbol, as a loaded document can, is flagged
  with one message that names the symbol and its meanings.
\<close>

lemma two_entries_example:
  "conflicts (verifyNotationConsistency
     ((CourseState_new ''Microeconomics'' None)
        \<lparr>notationRegistry :=
           [\<lparr>symbol = ''Q'', meaning = ''quantity'', introducedIn = 1, n_context = None\<rparr>,
            \<lparr>symbol = ''P'', meaning = ''price'', introducedIn = 2, n_context = None\<rparr>,
            \<lparr>symbol = ''Q'', meaning = ''quality'', introducedIn = 4, n_context = None\<rparr>]\<rparr>))
   = [''Symbol '' @ [CHR 0x22] @ ''Q'' @ [CHR 0x22] @ '' has conflicting meanings: quantity, quality'']"
  by (simp add: verifyNotationConsistency_def groupBySymbol_def conflictsOf_def
        Set_new_def Set_add_def conflictMessage_def CourseState_new_def)

text \<open>
  Claim C1, as the code has it. The check reads the registry as it stands: it reports
  one message for every symbol whose entries in the registry carry more than one
  meaning, in the order the symbols first appear, each message naming the symbol and
  its meanings. A registry built by \<open>registerNotation\<close> calls on a new course state
  keeps one entry per symbol, the last meaning registered, and is never flagged.
\<close>

theorem verifyNotationConsistency_reads_registry:
  "conflicts (verifyNotationConsistency s) =
     map (\<lambda>symb. conflictMessage symb
                   (Set_new (map meaning (filter (\<lambda>n. symbol n = symb) (notationRegistry s)))))
         (filter (\<lambda>symb. 1 < card (meaning ` {n \<in> set (notationRegistry s). symbol n = symb}))
                 (Set_new (map symbol (notationRegistry s))))
   \<and> consistent (verifyNotationConsistency s) = (conflicts (verifyNotationConsistency s) = [])
   \<and> conflicts (verifyNotationConsistency (registerNotations (CourseState_new name lang) cs)) = []"
proof (intro conjI)
  show "conflicts (verifyNotationConsistency s) =
     map (\<lambda>symb. conflictMessage symb
                   (Set_new (map meaning (filter (\<lambda>n. symbol n = symb) (notationRegistry s)))))
         (filter (\<lambda>symb. 1 < card (meaning ` {n \<in> set (notationRegistry s). symbol n = symb}))
                 (Set_new (map symbol (notationRegistry s))))"
    by (rule conflicts_closed)
  show "consistent (verifyNotationConsistency s) = (conflicts (verifyNotationConsistency s) = [])"
    by (simp add: verifyNotationConsistency_def Let_def)
  have "distinct (map symbol (notationRegistry (CourseState_new name lang)))"
    by (simp add: CourseState_new_def)
  then have "distinct (map symbol (notationRegistry (registerNotations (CourseState_new name lang) cs)))"
    by (rule registerNotations_distinct)
  then show "conflicts (verifyNotationConsistency (registerNotations (CourseState_new name lang) cs)) = []"
    by (rule conflicts_distinct_symbols)
qed

text \<open>
  Claim C1, as it is written, fails: after Q is registered as quantity in lecture 1 and
  as quality in lecture 4 the registry holds the one entry Q, quality, lecture 1, the
  check finds no conflict and \<open>verify\<close> reports no issue.
\<close>

theorem verify_symbol_registered_twice_counterexample:
  "notationRegistry stateQQ
     = [\<lparr>symbol = ''Q'', meaning = ''quality'', introducedIn = 1, n_context = None\<rparr>]
   \<and> conflicts (verifyNotationConsistency stateQQ) = []
   \<and> (case verify (sampleMaster stateQQ) \<lparr>i_output = [], i_files = []\<rparr> of
         Inl e \<Rightarrow> False
       | Inr (r, self') \<Rightarrow> issues r = [] \<and> passed r)"
  by (simp add: stateQQ_registry stateQQ_conflicts verify_def sampleMaster_def Let_def)

section \<open>Properties of the classifier\<close>

lemma startsWith_iff: "startsWith s kw \<longleftrightarrow> (\<exists>suf. s = kw @ suf)"
  by (induction s kw rule: startsWith.induct) auto

lemma includes_str_iff: "includes_str s kw \<longleftrightarrow> (\<exists>pre suf. s = pre @ kw @ suf)"
proof (induction s)
  case Nil
  then show ?case by simp
next
  case (Cons c s)
  show ?case
  proof
    assume "includes_str (c # s) kw"
    then consider "startsWith (c # s) kw" | "includes_str s kw" by auto
    then show "\<exists>pre suf. c # s = pre @ kw @ suf"
    proof cases
      case 1
      then obtain suf where "c # s = kw @ suf" by (auto simp: startsWith_iff)
      then have "c # s = [] @ kw @ suf" by simp
      then show ?thesis by blast
    next
      case 2
      then obtain pre suf where "s = pre @ kw @ suf" using Cons.IH by auto
      then have "c # s = (c # pre) @ kw @ suf" by simp
      then show ?thesis by blast
    qed
  next
    assume "\<exists>pre suf. c # s = pre @ kw @ suf"
    then obtain pre suf where e: "c # s = pre @ kw @ suf" by blast
    show "includes_str (c # s) kw"
    proof (cases pre)
      case Nil
      with e have "startsWith (c # s) kw" by (auto simp: startsWith_iff)
      then show ?thesis by simp
    next
      case (Cons p pre')
      with e have "s = pre' @ kw @ suf" by simp
      then have "includes_str s kw" using Cons.IH by blast
      then show ?thesis by simp
    qed
  qed
qed

lemma toLowerChar_idem: "toLowerChar (toLowerChar c) = toLowerChar c"
  unfolding toLowerChar_def by (auto split: option.splits)

lemma toLowerCase_idem: "toLowerCase (toLowerCase s) = toLowerCase s"
  by (simp add: toLowerCase_def toLowerChar_idem)

lemma matches_table:
  "map (\<lambda>(k, kws). (k, list_ex (\<lambda>kw. includes_str (toLowerCase task) kw) kws)) keywordSets =
     [(Latex, familyMatches task Latex), (Problemset, familyMatches task Problemset),
      (Research, familyMatches task Research), (Rcode, familyMatches task Rcode)]"
  by (simp add: keywordSets_def familyMatches_def)

lemma familyMatches_Mixed: "\<not> familyMatches task Mixed"
  by (simp add: keywordSets_def familyMatches_def)

lemma classifyTask_cases:
  "classifyTask task =
     Some (if familyMatches task Latex \<and> \<not> familyMatches task Problemset
              \<and> \<not> familyMatches task Research \<and> \<not> familyMatches task Rcode then Latex
           else if \<not> familyMatches task Latex \<and> familyMatches task Problemset
              \<and> \<not> familyMatches task Research \<and> \<not> familyMatches task Rcode then Problemset
           else if \<not> familyMatches task Latex \<and> \<not> familyMatches task Problemset
              \<and> familyMatches task Research \<and> \<not> familyMatches task Rcode then Research
           else if \<not> familyMatches task Latex \<and> \<not> familyMatches task Problemset
              \<and> \<not> familyMatches task Research \<and> familyMatches task Rcode then Rcode
           else Mixed)"
  unfolding classifyTask_def Let_def matches_table
  by (cases "familyMatches task Latex"; cases "familyMatches task Problemset";
      cases "familyMatches task Research"; cases "familyMatches task Rcode") simp_all

text \<open>
  Claim C2. \<open>classifyTask\<close> always returns a category. It returns the family whose
  keywords occur in the lowercased text when exactly one family has such a keyword, and
  \<open>mixed\<close> when no family or more than one family has one. Two texts with the same
  lowercased form are classified alike, and so are a text and its lowercased form. A
  family matches when one of its keywords is a substring of the lowercased text.
\<close>

theorem classifyTask_policy:
  "(\<exists>c. classifyTask t = Some c)
   \<and> (familyMatches t1 fam \<and> (\<forall>g. familyMatches t1 g \<longrightarrow> g = fam) \<longrightarrow> classifyTask t1 = Some fam)
   \<and> ((\<forall>g. \<not> familyMatches t0 g) \<longrightarrow> classifyTask t0 = Some Mixed)
   \<and> (familyMatches t2 f1 \<and> familyMatches t2 f2 \<and> f1 \<noteq> f2 \<longrightarrow> classifyTask t2 = Some Mixed)
   \<and> (toLowerCase ta = toLowerCase tb \<longrightarrow> classifyTask ta = classifyTask tb)
   \<and> classifyTask (toLowerCase t) = classifyTask t
   \<and> (familyMatches t fm \<longleftrightarrow>
        (\<exists>kws kw pre suf. (fm, kws) \<in> set keywordSets \<and> kw \<in> set kws
            \<and> toLowerCase t = pre @ kw @ suf))"
proof (intro conjI impI)
  show "\<exists>c. classifyTask t = Some c" by (simp add: classifyTask_cases)
  show "classifyTask t1 = Some fam"
    if "familyMatches t1 fam \<and> (\<forall>g. familyMatches t1 g \<longrightarrow> g = fam)"
    using that familyMatches_Mixed [of t1]
    by (cases fam) (auto simp: classifyTask_cases)
  show "classifyTask t0 = Some Mixed" if "\<forall>g. \<not> familyMatches t0 g"
    using that by (simp add: classifyTask_cases)
  show "classifyTask t2 = Some Mixed"
    if "familyMatches t2 f1 \<and> familyMatches t2 f2 \<and> f1 \<noteq> f2"
    using that familyMatches_Mixed [of t2]
    by (cases f1; cases f2) (auto simp: classifyTask_cases)
  show "classifyTask ta = classifyTask tb" if "toLowerCase ta = toLowerCase tb"
    using that by (simp add: classifyTask_def)
  show "classifyTask (toLowerCase t) = classifyTask t"
    by (simp add: classifyTask_def toLowerCase_idem)
  show "familyMatches t fm \<longleftrightarrow>
        (\<exists>kws kw pre suf. (fm, kws) \<in> set keywordSets \<and> kw \<in> set kws
            \<and> toLowerCase t = pre @ kw @ suf)"
  proof -
    have d: "distinct (map fst keywordSets)" by (simp add: keywordSets_def)
    have "familyMatches t fm \<longleftrightarrow>
            (\<exists>kws. map_of keywordSets fm = Some kws
                \<and> (\<exists>kw\<in>set kws. includes_str (toLowerCase t) kw))"
      by (auto simp: familyMatches_def list_ex_iff split: option.splits)
    also have "\<dots> \<longleftrightarrow> (\<exists>kws. (fm, kws) \<in> set keywordSets
                \<and> (\<exists>kw\<in>set kws. includes_str (toLowerCase t) kw))"
      using d by (simp add: map_of_eq_Some_iff)
    also have "\<dots> \<longleftrightarrow> (\<exists>kws kw pre suf. (fm, kws) \<in> set keywordSets \<and> kw \<in> set kws
            \<and> toLowerCase t = pre @ kw @ suf)"
      unfolding includes_str_iff by blast
    finally show ?thesis .
  qed
qed

lemma familyMatches_eval:
  "familyMatches t Latex = list_ex (\<lambda>kw. includes_str (toLowerCase t) kw)
      [''latex'', ''slides'', ''beamer'', ''compile'', ''tex'', ''macro'', ''polish'']"
  "familyMatches t Problemset = list_ex (\<lambda>kw. includes_str (toLowerCase t) kw)
      [''problem'', ''exercise'', ''solution'', ''homework'', ''assignment'', ''quiz'']"
  "familyMatches t Research = list_ex (\<lambda>kw. includes_str (toLowerCase t) kw)
      [''research'', ''literature'', ''citation'', ''bibtex'', ''paper'', ''reference'',
       ''background'']"
  "familyMatches t Rcode = list_ex (\<lambda>kw. includes_str (toLowerCase t) kw)
      [''r code'', ''r script'', ''rstudio'', ''analysis'', ''data'', ''plot'', ''simulation'']"
  "familyMatches t Mixed = False"
  by (simp_all add: familyMatches_def keywordSets_def)

lemma lower_slides: "toLowerCase ''Fix lecture 3 SLIDES'' = ''fix lecture 3 slides''"
  by (simp add: toLowerCase_def toLowerChar_def)

lemma lower_seminar: "toLowerCase ''Plan the seminar'' = ''plan the seminar''"
  by (simp add: toLowerCase_def toLowerChar_def)

lemma lower_both: "toLowerCase ''Slides and Homework'' = ''slides and homework''"
  by (simp add: toLowerCase_def toLowerChar_def)

theorem classifyTask_policy_witness:
  "classifyTask ''Fix lecture 3 SLIDES'' = Some Latex
   \<and> classifyTask ''Plan the seminar'' = Some Mixed
   \<and> classifyTask ''Slides and Homework'' = Some Mixed
   \<and> classifyTask ''Slides and Homework'' = classifyTask ''slides and homework''"
proof -
  have one: "familyMatches ''Fix lecture 3 SLIDES'' Latex
             \<and> (\<forall>g. familyMatches ''Fix lecture 3 SLIDES'' g \<longrightarrow> g = Latex)"
  proof (intro conjI allI impI)
    show "familyMatches ''Fix lecture 3 SLIDES'' Latex"
      by (simp add: familyMatches_eval lower_slides)
    fix g
    assume "familyMatches ''Fix lecture 3 SLIDES'' g"
    then show "g = Latex"
      by (cases g) (simp_all add: familyMatches_eval lower_slides)
  qed
  have none: "\<forall>g. \<not> familyMatches ''Plan the seminar'' g"
  proof
    fix g
    show "\<not> familyMatches ''Plan the seminar'' g"
      by (cases g) (simp_all add: familyMatches_eval lower_seminar)
  qed
  have two: "familyMatches ''Slides and Homework'' Latex
             \<and> familyMatches ''Slides and Homework'' Problemset \<and> Latex \<noteq> Problemset"
    by (simp add: familyMatches_eval lower_both)
  have low: "toLowerCase ''Slides and Homework'' = toLowerCase ''slides and homework''"
    by (simp add: toLowerCase_def toLowerChar_def)
  from one none two low
    classifyTask_policy [of "''x''" "''Fix lecture 3 SLIDES''" Latex "''Plan the seminar''"
      "''Slides and Homework''" Latex Problemset "''Slides and Homework''" "''slides and homework''"
      Latex]
  show ?thesis by blast
qed

section \<open>Properties of the plan step\<close>

lemma rescan_table:
  "rescanMatches task ''LatexTA'' = (includes_str (toLowerCase task) ''latex'' \<or> includes_str (toLowerCase task) ''slide'')"
  "rescanMatches task ''ProblemSetTA'' = (includes_str (toLowerCase task) ''problem'' \<or> includes_str (toLowerCase task) ''exercise'')"
  "rescanMatches task ''ResearchTA'' = (includes_str (toLowerCase task) ''research'' \<or> includes_str (toLowerCase task) ''literature'')"
  "rescanMatches task ''RCodeTA'' = (includes_str (toLowerCase task) ''r code'' \<or> includes_str (toLowerCase task) ''script'')"
  by (simp_all add: rescanMatches_def planKeywords_def)

lemma rescanMatches_handlers:
  "rescanMatches task h \<Longrightarrow> h \<in> set (map fst planKeywords)"
  by (auto simp: rescanMatches_def split: option.splits dest!: map_of_SomeD) (force)

lemma planFor_Mixed:
  "planFor (Some Mixed) task =
     (let sel = filter (rescanMatches task) (map fst planKeywords);
          a = (if sel = [] then [''ProblemSetTA'', ''LatexTA''] else sel)
      in \<lparr>taskType = Some Mixed, agents = a, parallel = (1 < length a)\<rparr>)"
proof -
  have k: "map fst planKeywords = [''LatexTA'', ''ProblemSetTA'', ''ResearchTA'', ''RCodeTA'']"
    by (simp add: planKeywords_def)
  show ?thesis
    unfolding k planFor_def Let_def
    by (cases "rescanMatches task ''LatexTA''"; cases "rescanMatches task ''ProblemSetTA''";
        cases "rescanMatches task ''ResearchTA''"; cases "rescanMatches task ''RCodeTA''")
       (simp_all add: rescan_table [symmetric])
qed

lemma planFor_nonempty: "agents (planFor (Some tt) task) \<noteq> []"
  by (cases tt) (simp_all add: planFor_Mixed Let_def, simp_all add: planFor_def)

lemma createPlan_Mixed:
  assumes "classifyTask task = Some Mixed"
  shows "createPlan task = planFor (Some Mixed) task"
  using assms by (simp add: createPlan_def)

lemma lower_problems:
  "toLowerCase ''Create lecture 5 slides and homework problems''
     = ''create lecture 5 slides and homework problems''"
  by (simp add: toLowerCase_def toLowerChar_def)

lemma classify_seminar: "classifyTask ''Plan the seminar'' = Some Mixed"
  by (simp add: classifyTask_cases familyMatches_eval lower_seminar)

lemma classify_both: "classifyTask ''Slides and Homework'' = Some Mixed"
  by (simp add: classifyTask_cases familyMatches_eval lower_both)

lemma classify_problems: "classifyTask ''Create lecture 5 slides and homework problems'' = Some Mixed"
  by (simp add: classifyTask_cases familyMatches_eval lower_problems)

text \<open>
  The two classification scenarios of the specification: a task with keywords of the
  document-polish family alone, and a task with keywords of two families.
\<close>

lemma lower_fix:
  "toLowerCase ''Fix lecture 3 slides errors and unify notation''
     = ''fix lecture 3 slides errors and unify notation''"
  by (simp add: toLowerCase_def toLowerChar_def)

lemma scenario_polish:
  "createPlan ''Fix lecture 3 slides errors and unify notation''
     = \<lparr>taskType = Some Latex, agents = [''LatexTA''], parallel = False\<rparr>"
proof -
  have "classifyTask ''Fix lecture 3 slides errors and unify notation'' = Some Latex"
    by (simp add: classifyTask_cases familyMatches_eval lower_fix)
  then show ?thesis
    by (simp add: createPlan_def planFor_def)
qed

lemma scenario_two_families:
  "createPlan ''Create lecture 5 slides and homework problems''
     = \<lparr>taskType = Some Mixed, agents = [''LatexTA'', ''ProblemSetTA''], parallel = True\<rparr>"
  by (simp add: createPlan_def classify_problems planFor_def lower_problems)

text \<open>
  Claim C3. The plan is never empty, for the task type the classifier gives and for
  every task type handed to the switch. For \<open>mixed\<close>, when none of the keywords of the
  re-scan occurs in the task, the plan is the pair of the problem-set handler and the
  document-polish handler, run in parallel.
\<close>

theorem createPlan_never_empty:
  "agents (createPlan task) \<noteq> []
   \<and> agents (planFor (Some tt) task) \<noteq> []
   \<and> ((\<forall>h. \<not> rescanMatches t0 h) \<longrightarrow>
         planFor (Some Mixed) t0
           = \<lparr>taskType = Some Mixed, agents = [''ProblemSetTA'', ''LatexTA''], parallel = True\<rparr>)
   \<and> (classifyTask t1 = Some Mixed \<and> (\<forall>h. \<not> rescanMatches t1 h) \<longrightarrow>
         agents (createPlan t1) = [''ProblemSetTA'', ''LatexTA'']
         \<and> set (agents (createPlan t1)) = {''LatexTA'', ''ProblemSetTA''})"
proof (intro conjI impI)
  obtain c where "classifyTask task = Some c"
    by (simp add: classifyTask_cases)
  then show "agents (createPlan task) \<noteq> []"
    by (simp add: createPlan_def planFor_nonempty)
  show "agents (planFor (Some tt) task) \<noteq> []"
    by (rule planFor_nonempty)
  show "planFor (Some Mixed) t0
           = \<lparr>taskType = Some Mixed, agents = [''ProblemSetTA'', ''LatexTA''], parallel = True\<rparr>"
    if "\<forall>h. \<not> rescanMatches t0 h"
    using that by (simp add: planFor_Mixed Let_def)
  assume h: "classifyTask t1 = Some Mixed \<and> (\<forall>h. \<not> rescanMatches t1 h)"
  then show "agents (createPlan t1) = [''ProblemSetTA'', ''LatexTA'']"
    by (simp add: createPlan_Mixed planFor_Mixed Let_def)
  then show "set (agents (createPlan t1)) = {''LatexTA'', ''ProblemSetTA''}"
    by auto
qed

theorem createPlan_never_empty_witness:
  "planFor (Some Mixed) ''Plan the seminar''
     = \<lparr>taskType = Some Mixed, agents = [''ProblemSetTA'', ''LatexTA''], parallel = True\<rparr>
   \<and> agents (createPlan ''Plan the seminar'') = [''ProblemSetTA'', ''LatexTA'']"
proof -
  have none: "\<forall>h. \<not> rescanMatches ''Plan the seminar'' h"
    by (simp add: rescanMatches_def planKeywords_def lower_seminar)
  from none classify_seminar
    createPlan_never_empty [of "''x''" Latex "''Plan the seminar''" "''Plan the seminar''"]
  show ?thesis by blast
qed

text \<open>
  Claim C4, as the code has it. For a task classified as \<open>mixed\<close> the plan step scans
  the lowercased task for its own keywords, two per handler (latex, slide; problem,
  exercise; research, literature; r code, script), and the plan holds the handlers that
  have one of their keywords in the task, in that order, or the default pair when there
  is none. The plan is parallel when it holds more than one handler.
\<close>

theorem createPlan_mixed_rescan:
  "classifyTask task = Some Mixed \<longrightarrow>
     agents (createPlan task)
       = (if filter (rescanMatches task) (map fst planKeywords) = []
          then [''ProblemSetTA'', ''LatexTA'']
          else filter (rescanMatches task) (map fst planKeywords))
     \<and> parallel (createPlan task) = (1 < length (agents (createPlan task)))
     \<and> (rescanMatches task h \<longrightarrow> h \<in> set (agents (createPlan task)))"
proof (intro impI conjI)
  assume m: "classifyTask task = Some Mixed"
  show a: "agents (createPlan task)
       = (if filter (rescanMatches task) (map fst planKeywords) = []
          then [''ProblemSetTA'', ''LatexTA'']
          else filter (rescanMatches task) (map fst planKeywords))"
    by (simp add: createPlan_Mixed [OF m] planFor_Mixed Let_def)
  show "parallel (createPlan task) = (1 < length (agents (createPlan task)))"
    by (simp add: createPlan_Mixed [OF m] planFor_Mixed Let_def)
  assume r: "rescanMatches task h"
  then have sel: "h \<in> set (filter (rescanMatches task) (map fst planKeywords))"
    using rescanMatches_handlers [OF r] by simp
  then have "filter (rescanMatches task) (map fst planKeywords) \<noteq> []"
    by (metis empty_iff empty_set)
  with sel show "h \<in> set (agents (createPlan task))"
    by (simp only: a if_False)
qed

theorem createPlan_mixed_rescan_witness:
  "''ProblemSetTA'' \<in> set (agents (createPlan ''Create lecture 5 slides and homework problems''))
   \<and> parallel (createPlan ''Create lecture 5 slides and homework problems'')
      = (1 < length (agents (createPlan ''Create lecture 5 slides and homework problems'')))"
proof -
  have r: "rescanMatches ''Create lecture 5 slides and homework problems'' ''ProblemSetTA''"
    by (simp add: rescan_table lower_problems)
  from r classify_problems
    createPlan_mixed_rescan [of "''Create lecture 5 slides and homework problems''" "''ProblemSetTA''"]
  show ?thesis by blast
qed

text \<open>
  Claim C4, as it is written, fails: the task below is classified as \<open>mixed\<close>, the
  keyword homework of the problem-set family occurs in it, and the plan holds the
  document-polish handler alone.
\<close>

theorem createPlan_mixed_homework_counterexample:
  "classifyTask ''Slides and Homework'' = Some Mixed
   \<and> familyMatches ''Slides and Homework'' Problemset
   \<and> includes_str (toLowerCase ''Slides and Homework'') ''homework''
   \<and> createPlan ''Slides and Homework''
       = \<lparr>taskType = Some Mixed, agents = [''LatexTA''], parallel = False\<rparr>"
  by (simp add: classify_both createPlan_def planFor_def familyMatches_eval lower_both)

section \<open>Properties of the verify step\<close>

lemma checkFiles_inside:
  "list_all (insideSandbox t) fls \<Longrightarrow>
   checkFiles t fls found =
     Inr (found @ map (\<lambda>f. ''File not found: '' @ f) (filter (\<lambda>f. \<not> accessible t f) fls))"
  by (induction fls arbitrary: found) (auto simp: fs_exists_def)

lemma checkFiles_outside:
  "\<not> list_all (insideSandbox t) fls \<Longrightarrow> \<exists>f. checkFiles t fls found = Inl (AccessDenied f)"
  by (induction fls arbitrary: found) (auto simp: fs_exists_def)

lemma issues0_conflicts:
  "(if \<not> consistent (verifyNotationConsistency cs) then conflicts (verifyNotationConsistency cs) else [])
     = conflicts (verifyNotationConsistency cs)"
  by (simp add: verifyNotationConsistency_def Let_def)

lemma verify_inside:
  assumes "list_all (insideSandbox (fs self)) (i_files integrated)"
  shows "verify self integrated =
     (let found = conflicts (verifyNotationConsistency (courseState self))
                   @ map (\<lambda>f. ''File not found: '' @ f)
                       (filter (\<lambda>f. \<not> accessible (fs self) f) (i_files integrated));
          r = \<lparr>passed = (found = []), issues = found,
               warnings = (if i_files integrated = [] then [''No files were generated''] else [])\<rparr>
      in Inr (r, self\<lparr>lastVerification := r\<rparr>))"
  unfolding verify_def Let_def issues0_conflicts checkFiles_inside [OF assms]
  by simp

lemma verify_outside:
  assumes "\<not> list_all (insideSandbox (fs self)) (i_files integrated)"
  shows "\<exists>f. verify self integrated = Inl (AccessDenied f)"
proof -
  obtain f where "checkFiles (fs self) (i_files integrated)
      (conflicts (verifyNotationConsistency (courseState self))) = Inl (AccessDenied f)"
    using checkFiles_outside [OF assms] by blast
  then show ?thesis
    unfolding verify_def Let_def issues0_conflicts by simp
qed

lemma verify_sample_no_files:
  "verify (sampleMaster stateQ) \<lparr>i_output = [], i_files = []\<rparr>
     = Inr (\<lparr>passed = True, issues = [], warnings = [''No files were generated'']\<rparr>,
            (sampleMaster stateQ)\<lparr>lastVerification :=
               \<lparr>passed = True, issues = [], warnings = [''No files were generated'']\<rparr>\<rparr>)"
proof -
  have "verifyNotationConsistency stateQ = \<lparr>consistent = True, conflicts = []\<rparr>"
    by (simp add: verifyNotationConsistency_def stateQ_registry groupBySymbol_def conflictsOf_def
          Set_new_def Set_add_def)
  then show ?thesis
    by (simp add: verify_def sampleMaster_def Let_def)
qed

lemma verify_sample_missing:
  "verify (sampleMaster stateQ) \<lparr>i_output = [], i_files = [''lecture3.tex'', ''analysis.R'']\<rparr>
     = Inr (\<lparr>passed = False, issues = [''File not found: analysis.R''], warnings = []\<rparr>,
            (sampleMaster stateQ)\<lparr>lastVerification :=
               \<lparr>passed = False, issues = [''File not found: analysis.R''], warnings = []\<rparr>\<rparr>)"
proof -
  have "verifyNotationConsistency stateQ = \<lparr>consistent = True, conflicts = []\<rparr>"
    by (simp add: verifyNotationConsistency_def stateQ_registry groupBySymbol_def conflictsOf_def
          Set_new_def Set_add_def)
  then show ?thesis
    by (simp add: verify_def sampleMaster_def Let_def fs_exists_def)
qed

lemma verify_sample_present:
  "verify (sampleMaster stateQ) \<lparr>i_output = [], i_files = [''lecture3.tex'']\<rparr>
     = Inr (\<lparr>passed = True, issues = [], warnings = []\<rparr>,
            (sampleMaster stateQ)\<lparr>lastVerification :=
               \<lparr>passed = True, issues = [], warnings = []\<rparr>\<rparr>)"
proof -
  have "verifyNotationConsistency stateQ = \<lparr>consistent = True, conflicts = []\<rparr>"
    by (simp add: verifyNotationConsistency_def stateQ_registry groupBySymbol_def conflictsOf_def
          Set_new_def Set_add_def)
  then show ?thesis
    by (simp add: verify_def sampleMaster_def Let_def fs_exists_def)
qed

text \<open>
  Claim C5. Whenever \<open>verify\<close> returns, \<open>passed\<close> is true exactly when the list of
  issues is empty, and the result is stored on the instance. Two runs that report the
  same issues have the same \<open>passed\<close>, whatever their warnings. \<open>verify\<close> returns
  whenever every file of the integrated result resolves inside the sandbox.
\<close>

theorem verify_passed_iff_no_issues:
  "(verify self integrated = Inr (r, self') \<longrightarrow>
      passed r = (issues r = []) \<and> lastVerification self' = r)
   \<and> (verify m1 i1 = Inr (r1, m1') \<and> verify m2 i2 = Inr (r2, m2') \<and> issues r1 = issues r2
        \<longrightarrow> passed r1 = passed r2)
   \<and> (list_all (insideSandbox (fs m)) (i_files i) \<longrightarrow> (\<exists>r m'. verify m i = Inr (r, m')))"
proof -
  have p: "passed r = (issues r = []) \<and> lastVerification self' = r"
    if "verify self integrated = Inr (r, self')" for self integrated r self'
  proof (cases "list_all (insideSandbox (fs self)) (i_files integrated)")
    case True
    from that show ?thesis
      unfolding verify_inside [OF True] Let_def by auto
  next
    case False
    with that verify_outside [OF False] show ?thesis by auto
  qed
  show ?thesis
  proof (intro conjI impI)
    show "passed r = (issues r = [])" if "verify self integrated = Inr (r, self')"
      using p [OF that] by simp
    show "lastVerification self' = r" if "verify self integrated = Inr (r, self')"
      using p [OF that] by simp
    show "passed r1 = passed r2"
      if "verify m1 i1 = Inr (r1, m1') \<and> verify m2 i2 = Inr (r2, m2') \<and> issues r1 = issues r2"
      using that p [of m1 i1 r1 m1'] p [of m2 i2 r2 m2'] by simp
    show "\<exists>r m'. verify m i = Inr (r, m')" if "list_all (insideSandbox (fs m)) (i_files i)"
      unfolding verify_inside [OF that] Let_def by blast
  qed
qed

theorem verify_passed_iff_no_issues_witness:
  "(\<exists>r r' m m'.
      verify (sampleMaster stateQ) \<lparr>i_output = [], i_files = []\<rparr> = Inr (r, m)
      \<and> verify (sampleMaster stateQ) \<lparr>i_output = [], i_files = [''lecture3.tex'']\<rparr> = Inr (r', m')
      \<and> warnings r = [''No files were generated''] \<and> warnings r' = []
      \<and> issues r = issues r' \<and> passed r = passed r' \<and> passed r = (issues r = []))
   \<and> (\<exists>r m.
      verify (sampleMaster stateQ) \<lparr>i_output = [], i_files = [''lecture3.tex'', ''analysis.R'']\<rparr>
        = Inr (r, m)
      \<and> issues r = [''File not found: analysis.R''] \<and> passed r = (issues r = []))"
proof -
  let ?m = "sampleMaster stateQ"
  let ?r0 = "\<lparr>passed = True, issues = [], warnings = [''No files were generated'']\<rparr>"
  let ?r1 = "\<lparr>passed = True, issues = [], warnings = []\<rparr>"
  let ?r2 = "\<lparr>passed = False, issues = [''File not found: analysis.R''], warnings = []\<rparr>"
  have inside: "list_all (insideSandbox (fs ?m)) (i_files \<lparr>i_output = [], i_files = []\<rparr>)"
    by simp
  have same: "issues ?r0 = issues ?r1" by simp
  from verify_passed_iff_no_issues
    [of ?m "\<lparr>i_output = [], i_files = []\<rparr>" ?r0 "?m\<lparr>lastVerification := ?r0\<rparr>"
        ?m "\<lparr>i_output = [], i_files = []\<rparr>" ?r0 "?m\<lparr>lastVerification := ?r0\<rparr>"
        ?m "\<lparr>i_output = [], i_files = [''lecture3.tex'']\<rparr>" ?r1 "?m\<lparr>lastVerification := ?r1\<rparr>"
        ?m "\<lparr>i_output = [], i_files = []\<rparr>"]
    verify_sample_no_files verify_sample_present inside same
  have a: "passed ?r0 = (issues ?r0 = [])" "passed ?r0 = passed ?r1"
    by blast+
  from verify_passed_iff_no_issues
    [of ?m "\<lparr>i_output = [], i_files = [''lecture3.tex'', ''analysis.R'']\<rparr>" ?r2
        "?m\<lparr>lastVerification := ?r2\<rparr>"]
    verify_sample_missing
  have b: "passed ?r2 = (issues ?r2 = [])"
    by blast
  have w: "warnings ?r0 = [''No files were generated'']" "warnings ?r1 = []"
    "issues ?r2 = [''File not found: analysis.R'']"
    by simp_all
  from a same w verify_sample_no_files verify_sample_present
  have first: "\<exists>r r' m m'.
      verify ?m \<lparr>i_output = [], i_files = []\<rparr> = Inr (r, m)
      \<and> verify ?m \<lparr>i_output = [], i_files = [''lecture3.tex'']\<rparr> = Inr (r', m')
      \<and> warnings r = [''No files were generated''] \<and> warnings r' = []
      \<and> issues r = issues r' \<and> passed r = passed r' \<and> passed r = (issues r = [])"
    by blast
  from b w verify_sample_missing
  have second: "\<exists>r m.
      verify ?m \<lparr>i_output = [], i_files = [''lecture3.tex'', ''analysis.R'']\<rparr> = Inr (r, m)
      \<and> issues r = [''File not found: analysis.R''] \<and> passed r = (issues r = [])"
    by blast
  from first second show ?thesis by (rule conjI)
qed

text \<open>
  Claim C9. On an integrated result with no files \<open>verify\<close> returns; its warnings are
  the one warning that no files were generated, its issues are the conflicts of the
  notation check and nothing else, and \<open>passed\<close> is true exactly when there is no
  notation conflict.
\<close>

theorem verify_no_files:
  "i_files integrated = [] \<longrightarrow>
     verify self integrated
       = Inr (\<lparr>passed = (conflicts (verifyNotationConsistency (courseState self)) = []),
               issues = conflicts (verifyNotationConsistency (courseState self)),
               warnings = [''No files were generated'']\<rparr>,
              self\<lparr>lastVerification :=
                \<lparr>passed = (conflicts (verifyNotationConsistency (courseState self)) = []),
                 issues = conflicts (verifyNotationConsistency (courseState self)),
                 warnings = [''No files were generated'']\<rparr>\<rparr>)"
proof
  assume e: "i_files integrated = []"
  then have "list_all (insideSandbox (fs self)) (i_files integrated)" by simp
  from verify_inside [OF this] e show "verify self integrated
       = Inr (\<lparr>passed = (conflicts (verifyNotationConsistency (courseState self)) = []),
               issues = conflicts (verifyNotationConsistency (courseState self)),
               warnings = [''No files were generated'']\<rparr>,
              self\<lparr>lastVerification :=
                \<lparr>passed = (conflicts (verifyNotationConsistency (courseState self)) = []),
                 issues = conflicts (verifyNotationConsistency (courseState self)),
                 warnings = [''No files were generated'']\<rparr>\<rparr>)"
    by (simp add: Let_def)
qed

theorem verify_no_files_witness:
  "verify (sampleMaster stateQQ) \<lparr>i_output = ''# Task Results'', i_files = []\<rparr>
     = Inr (\<lparr>passed = True, issues = [], warnings = [''No files were generated'']\<rparr>,
            (sampleMaster stateQQ)\<lparr>lastVerification :=
               \<lparr>passed = True, issues = [], warnings = [''No files were generated'']\<rparr>\<rparr>)"
proof -
  have e: "i_files \<lparr>i_output = ''# Task Results'', i_files = []\<rparr> = []" by simp
  have c: "conflicts (verifyNotationConsistency (courseState (sampleMaster stateQQ))) = []"
    by (simp add: sampleMaster_def stateQQ_conflicts)
  from verify_no_files [of "\<lparr>i_output = ''# Task Results'', i_files = []\<rparr>" "sampleMaster stateQQ"] e
  show ?thesis unfolding c by simp
qed

section \<open>Properties of the delegate step\<close>

lemma logResult_changeLog:
  "changeLog (logResult clock self agentName task result) =
     (if success result
      then changeLog self @ [entryFor clock (length (changeLog self)) agentName task result]
      else changeLog self)"
  by (simp add: logResult_def entryFor_def)

lemma executeSubAgent_Inr:
  "executeSubAgent clock self agentName task ctx = Inr (result, self') \<Longrightarrow>
     dispatch self agentName task ctx = Inr result \<and> self' = logResult clock self agentName task result"
  by (auto simp: executeSubAgent_def split: sum.splits)

lemma logged_entryFor: "logged (entryFor clock pos agentName task result) = expected (agentName, result)"
  by (simp add: logged_def expected_def entryFor_def createChangeLogEntry_def)

lemma runSequential_log:
  "runSequential clock self names task ctx acc = Inr (results, self') \<Longrightarrow>
   \<exists>new rs. changeLog self' = changeLog self @ new \<and> results = acc @ rs
     \<and> length rs = length names
     \<and> map logged new = map expected (filter (\<lambda>p. success (snd p)) (zip names rs))"
proof (induction names arbitrary: self acc)
  case Nil
  then show ?case by simp
next
  case (Cons a names)
  from Cons.prems obtain r s1 where
    e: "executeSubAgent clock self a task ctx = Inr (r, s1)" and
    rest: "runSequential clock s1 names task ctx (acc @ [r]) = Inr (results, self')"
    by (auto split: sum.splits)
  from executeSubAgent_Inr [OF e] have s1: "s1 = logResult clock self a task r" by simp
  from Cons.IH [OF rest] obtain new rs where
    n: "changeLog self' = changeLog s1 @ new" "results = (acc @ [r]) @ rs"
       "length rs = length names"
       "map logged new = map expected (filter (\<lambda>p. success (snd p)) (zip names rs))"
    by blast
  show ?case
  proof (cases "success r")
    case True
    let ?new = "entryFor clock (length (changeLog self)) a task r # new"
    have "changeLog self' = changeLog self @ ?new" using n(1) s1 True
      by (simp add: logResult_changeLog)
    moreover have "results = acc @ (r # rs)" using n(2) by simp
    moreover have "length (r # rs) = length (a # names)" using n(3) by simp
    moreover have "map logged ?new = map expected (filter (\<lambda>p. success (snd p)) (zip (a # names) (r # rs)))"
      using n(4) True by (simp add: logged_entryFor)
    ultimately show ?thesis by blast
  next
    case False
    have "changeLog self' = changeLog self @ new" using n(1) s1 False
      by (simp add: logResult_changeLog)
    moreover have "results = acc @ (r # rs)" using n(2) by simp
    moreover have "length (r # rs) = length (a # names)" using n(3) by simp
    moreover have "map logged new = map expected (filter (\<lambda>p. success (snd p)) (zip (a # names) (r # rs)))"
      using n(4) False by simp
    ultimately show ?thesis by blast
  qed
qed

lemma allResults_Inr:
  "allResults ps = Inr rs \<Longrightarrow> ps = map Inr rs"
  by (induction ps arbitrary: rs rule: allResults.induct) (auto split: sum.splits)

lemma parallel_fold_log:
  "\<exists>new. changeLog (fold (\<lambda>i self'. if i < length names
                                then logResult clock self' (names ! i) task (results ! i)
                                else self') completion self) = changeLog self @ new
     \<and> map logged new = map (\<lambda>i. expected (names ! i, results ! i))
                            (filter (\<lambda>i. i < length names \<and> success (results ! i)) completion)"
proof (induction completion arbitrary: self)
  case Nil
  then show ?case by simp
next
  case (Cons i completion)
  let ?step = "\<lambda>i self'. if i < length names
                                then logResult clock self' (names ! i) task (results ! i)
                                else self'"
  from Cons [of "?step i self"] obtain new where
    n: "changeLog (fold ?step completion (?step i self)) = changeLog (?step i self) @ new"
       "map logged new = map (\<lambda>i. expected (names ! i, results ! i))
                            (filter (\<lambda>i. i < length names \<and> success (results ! i)) completion)"
    by blast
  show ?case
  proof (cases "i < length names \<and> success (results ! i)")
    case True
    let ?new = "entryFor clock (length (changeLog self)) (names ! i) task (results ! i) # new"
    have "changeLog (fold ?step (i # completion) self) = changeLog self @ ?new"
      using n(1) True by (simp add: logResult_changeLog)
    moreover have "map logged ?new = map (\<lambda>i. expected (names ! i, results ! i))
                            (filter (\<lambda>i. i < length names \<and> success (results ! i)) (i # completion))"
      using n(2) True by (simp add: logged_entryFor)
    ultimately show ?thesis by blast
  next
    case False
    have "changeLog (fold ?step (i # completion) self) = changeLog self @ new"
      using n(1) False by (auto simp add: logResult_changeLog)
    moreover have "map logged new = map (\<lambda>i. expected (names ! i, results ! i))
                            (filter (\<lambda>i. i < length names \<and> success (results ! i)) (i # completion))"
      using n(2) False by auto
    ultimately show ?thesis by blast
  qed
qed

lemma mset_indices:
  assumes "mset completion = mset [0..<n]" "length names = n" "length results = n"
  shows "mset (map (\<lambda>i. expected (names ! i, results ! i))
                  (filter (\<lambda>i. i < length names \<and> success (results ! i)) completion))
       = mset (map expected (filter (\<lambda>p. success (snd p)) (zip names results)))"
proof -
  let ?P = "\<lambda>i. i < length names \<and> success (results ! i)"
  let ?f = "\<lambda>i. (names ! i, results ! i)"
  have z: "zip names results = map ?f [0..<n]"
    using assms(2,3) by (auto intro!: nth_equalityI)
  have "mset (map (\<lambda>i. expected (?f i)) (filter ?P completion))
        = image_mset (\<lambda>i. expected (?f i)) (filter_mset ?P (mset completion))"
    by simp
  also have "\<dots> = image_mset (\<lambda>i. expected (?f i)) (filter_mset ?P (mset [0..<n]))"
    by (simp add: assms(1))
  also have "\<dots> = mset (map (\<lambda>i. expected (?f i)) (filter ?P [0..<n]))"
    by simp
  also have "filter ?P [0..<n] = filter (\<lambda>i. success (snd (?f i))) [0..<n]"
    using assms(2) by (intro filter_cong) auto
  also have "map (\<lambda>i. expected (?f i)) (filter (\<lambda>i. success (snd (?f i))) [0..<n])
             = map expected (filter (\<lambda>p. success (snd p)) (map ?f [0..<n]))"
    by (simp add: filter_map comp_def)
  finally show ?thesis by (simp add: z)
qed

lemma runParallel_log:
  assumes "runParallel clock self names task ctx completion = Inr (results, self')"
    and "mset completion = mset [0..<length names]"
  shows "\<exists>new. changeLog self' = changeLog self @ new
     \<and> length results = length names
     \<and> mset (map logged new) = mset (map expected (filter (\<lambda>p. success (snd p)) (zip names results)))"
proof -
  from assms(1) have a: "allResults (map (\<lambda>agentName. dispatch self agentName task ctx) names) = Inr results"
    and s: "self' = fold (\<lambda>i self'. if i < length names
                                then logResult clock self' (names ! i) task (results ! i)
                                else self') completion self"
    by (auto simp: runParallel_def split: sum.splits)
  from allResults_Inr [OF a] have l: "length results = length names"
    by (metis length_map)
  from parallel_fold_log [of names clock task results completion self] s obtain new where
    n: "changeLog self' = changeLog self @ new"
       "map logged new = map (\<lambda>i. expected (names ! i, results ! i))
                            (filter (\<lambda>i. i < length names \<and> success (results ! i)) completion)"
    by blast
  have "mset (map logged new) = mset (map expected (filter (\<lambda>p. success (snd p)) (zip names results)))"
    unfolding n(2) using mset_indices [OF assms(2) refl l] .
  with n(1) l show ?thesis by blast
qed

lemma filter_zip_snd:
  "length names = length rs \<Longrightarrow>
   length (filter (\<lambda>p. P (snd p)) (zip names rs)) = length (filter P rs)"
  by (induction names rs rule: list_induct2) auto

lemma decimal_digit: "n < 10 \<Longrightarrow> decimal n = [digit n]"
  by (simp add: decimal.simps [of n])

lemma sampleClock_0: "sampleClock 0 = ''2024-01-01T00:00:00.000Z''"
  by (simp add: sampleClock_def decimal_digit digit_def)

lemma sampleClock_1: "sampleClock (Suc 0) = ''2024-01-01T00:00:01.000Z''"
  by (simp add: sampleClock_def decimal_digit digit_def)

lemma execute_problemset:
  "executeSubAgent sampleClock (sampleMaster stateQ) ''ProblemSetTA'' ''Write a quiz'' None
     = Inr (\<lparr>agentType = ''ProblemSetTA'', success = True, r_output = ''no file written'',
             files = Some [], errors = None\<rparr>,
            (sampleMaster stateQ)\<lparr>changeLog :=
               [\<lparr>timestamp = ''2024-01-01T00:00:00.000Z'', agent = ''ProblemSetTA'',
                 action = ''execute'', c_files = [],
                 description = ''Completed task: Write a quiz''\<rparr>]\<rparr>)"
  by (simp add: executeSubAgent_def dispatch_def logResult_def sampleMaster_def
        createSuccessResult_def createChangeLogEntry_def sampleClock_0)

lemma delegate_sample:
  "delegateToAgents sampleClock (sampleMaster stateQ) samplePlan ''Write a quiz'' None sampleCompletion
     = Inr ([latexTA (sampleMaster stateQ) ''Write a quiz'' None,
             problemSetTA (sampleMaster stateQ) ''Write a quiz'' None,
             researchTA (sampleMaster stateQ) ''Write a quiz'' None],
            (sampleMaster stateQ)\<lparr>changeLog :=
               [\<lparr>timestamp = ''2024-01-01T00:00:00.000Z'', agent = ''ProblemSetTA'',
                 action = ''execute'', c_files = [],
                 description = ''Completed task: Write a quiz''\<rparr>,
                \<lparr>timestamp = ''2024-01-01T00:00:01.000Z'', agent = ''LatexTA'',
                 action = ''execute'', c_files = [''lecture3.tex''],
                 description = ''Completed task: Write a quiz''\<rparr>]\<rparr>)"
  by (simp add: delegateToAgents_def samplePlan_def sampleCompletion_def runParallel_def dispatch_def logResult_def
        sampleMaster_def createSuccessResult_def createErrorResult_def createChangeLogEntry_def
        sampleClock_0 sampleClock_1)

text \<open>
  Claim C8, as the code has it. \<open>executeSubAgent\<close> appends one entry when the
  result is successful, whether the result has files or not (the entry records the
  files, or none), and no entry when the result is a failure. After the delegate step
  the change log is the log before it followed by exactly one entry for each successful
  result, in the order of the plan when the plan is sequential and in the order of
  completion when it is parallel.
\<close>

theorem delegate_logs_every_successful_result:
  "(executeSubAgent clock self a task ctx = Inr (r, self') \<longrightarrow>
      changeLog self' =
        (if success r then changeLog self @ [entryFor clock (length (changeLog self)) a task r]
         else changeLog self))
   \<and> ((parallel plan \<longrightarrow> mset completion = mset [0..<length (agents plan)])
        \<and> delegateToAgents clock m plan t c completion = Inr (rs, m') \<longrightarrow>
      length rs = length (agents plan)
      \<and> (\<exists>new. changeLog m' = changeLog m @ new
            \<and> length new = length (filter success rs)
            \<and> mset (map logged new)
                = mset (map expected (filter (\<lambda>p. success (snd p)) (zip (agents plan) rs)))))"
proof (intro conjI impI)
  assume "executeSubAgent clock self a task ctx = Inr (r, self')"
  from executeSubAgent_Inr [OF this]
  show "changeLog self' =
        (if success r then changeLog self @ [entryFor clock (length (changeLog self)) a task r]
         else changeLog self)"
    by (simp add: logResult_changeLog)
next
  assume h: "(parallel plan \<longrightarrow> mset completion = mset [0..<length (agents plan)])
        \<and> delegateToAgents clock m plan t c completion = Inr (rs, m')"
  have main: "\<exists>new. changeLog m' = changeLog m @ new \<and> length rs = length (agents plan)
     \<and> mset (map logged new) = mset (map expected (filter (\<lambda>p. success (snd p)) (zip (agents plan) rs)))"
  proof (cases "parallel plan")
    case True
    with h have "runParallel clock m (agents plan) t c completion = Inr (rs, m')"
      and "mset completion = mset [0..<length (agents plan)]"
      by (simp_all add: delegateToAgents_def)
    from runParallel_log [OF this] show ?thesis by blast
  next
    case False
    with h have "runSequential clock m (agents plan) t c [] = Inr (rs, m')"
      by (simp add: delegateToAgents_def)
    from runSequential_log [OF this] obtain new where
      s: "changeLog m' = changeLog m @ new" "length rs = length (agents plan)"
         "map logged new = map expected (filter (\<lambda>p. success (snd p)) (zip (agents plan) rs))"
      by auto
    from s(3) have "mset (map logged new)
        = mset (map expected (filter (\<lambda>p. success (snd p)) (zip (agents plan) rs)))"
      by (rule arg_cong)
    with s(1,2) show ?thesis by blast
  qed
  then obtain new where n: "changeLog m' = changeLog m @ new" "length rs = length (agents plan)"
     "mset (map logged new) = mset (map expected (filter (\<lambda>p. success (snd p)) (zip (agents plan) rs)))"
    by blast
  show "length rs = length (agents plan)" by (rule n(2))
  have "length new = size (mset (map logged new))"
    by (simp only: size_mset length_map)
  also have "\<dots> = size (mset (map expected (filter (\<lambda>p. success (snd p)) (zip (agents plan) rs))))"
    by (simp only: n(3))
  also have "\<dots> = length (filter (\<lambda>p. success (snd p)) (zip (agents plan) rs))"
    by (simp only: size_mset length_map)
  also have "\<dots> = length (filter success rs)"
    using n(2) by (simp add: filter_zip_snd)
  finally have "length new = length (filter success rs)" .
  with n(1,3) show "\<exists>new. changeLog m' = changeLog m @ new
            \<and> length new = length (filter success rs)
            \<and> mset (map logged new)
                = mset (map expected (filter (\<lambda>p. success (snd p)) (zip (agents plan) rs)))"
    by blast
qed

theorem delegate_logs_every_successful_result_witness:
  "(case delegateToAgents sampleClock (sampleMaster stateQ) samplePlan ''Write a quiz'' None sampleCompletion of
      Inl e \<Rightarrow> False
    | Inr (rs, m') \<Rightarrow>
        map success rs = [True, True, False]
        \<and> map logged (changeLog m') = [(''ProblemSetTA'', []), (''LatexTA'', [''lecture3.tex''])]
        \<and> length (changeLog m') = length (filter success rs))"
proof -
  let ?m = "sampleMaster stateQ"
  obtain rs m' where d: "delegateToAgents sampleClock ?m samplePlan ''Write a quiz'' None sampleCompletion = Inr (rs, m')"
    using delegate_sample by blast
  have p: "parallel samplePlan \<longrightarrow> mset sampleCompletion = mset [0..<length (agents samplePlan)]"
    by (simp add: samplePlan_def sampleCompletion_def upt_rec)
  have e: "executeSubAgent sampleClock ?m ''ProblemSetTA'' ''Write a quiz'' None
     = Inr (problemSetTA ?m ''Write a quiz'' None,
            logResult sampleClock ?m ''ProblemSetTA'' ''Write a quiz'' (problemSetTA ?m ''Write a quiz'' None))"
    by (simp add: executeSubAgent_def dispatch_def)
  from delegate_logs_every_successful_result
    [of sampleClock ?m "''ProblemSetTA''" "''Write a quiz''" None _ _ samplePlan sampleCompletion
        ?m "''Write a quiz''" None rs m'] e p d
  obtain new where n: "changeLog m' = changeLog ?m @ new" "length new = length (filter success rs)"
    by blast
  have "changeLog ?m = []" by (simp add: sampleMaster_def)
  with n have l: "length (changeLog m') = length (filter success rs)" by simp
  from d have "rs = [latexTA ?m ''Write a quiz'' None, problemSetTA ?m ''Write a quiz'' None,
             researchTA ?m ''Write a quiz'' None]"
    and "map logged (changeLog m') = [(''ProblemSetTA'', []), (''LatexTA'', [''lecture3.tex''])]"
    by (simp_all add: delegate_sample) (auto simp: logged_def)
  then have "map success rs = [True, True, False]"
    by (simp add: sampleMaster_def createSuccessResult_def createErrorResult_def)
  with \<open>map logged (changeLog m') = _\<close> l d show ?thesis by simp
qed

text \<open>
  Claim C8, as it is written, fails: the handler below succeeds with no file, and its
  entry is appended to the empty log.
\<close>

theorem executeSubAgent_no_files_counterexample:
  "(case executeSubAgent sampleClock (sampleMaster stateQ) ''ProblemSetTA'' ''Write a quiz'' None of
      Inl e \<Rightarrow> False
    | Inr (r, self') \<Rightarrow>
        success r \<and> files r = Some [] \<and> changeLog (sampleMaster stateQ) = []
        \<and> changeLog self' =
            [\<lparr>timestamp = ''2024-01-01T00:00:00.000Z'', agent = ''ProblemSetTA'',
              action = ''execute'', c_files = [],
              description = ''Completed task: Write a quiz''\<rparr>])"
  by (simp add: execute_problemset) (simp add: sampleMaster_def)

section \<open>Properties of the assumption registry\<close>

lemma registerAssumption_assumptions:
  "assumptions (snd (registerAssumption s descr intro vFrom vTo)) =
     assumptions s @
       [\<lparr>a_id = ''assumption_'' @ decimal (length (assumptions s) + 1), a_description = descr,
         a_introducedIn = intro, validFrom = vFrom, validTo = vTo\<rparr>]"
  by (simp add: registerAssumption_def Let_def)

lemma registerNotation_assumptions:
  "assumptions (registerNotation s symb mng lec ctx) = assumptions s"
  by (simp add: registerNotation_def split: option.splits)

lemma call_prefix: "prefix (assumptions s) (assumptions (call c s))"
  by (cases c) (simp_all add: registerAssumption_assumptions registerNotation_assumptions
        updateLecture_def)

lemma calls_prefix: "prefix (assumptions s) (assumptions (calls cs s))"
proof (induction cs arbitrary: s)
  case Nil
  then show ?case by (simp add: calls_def)
next
  case (Cons c cs)
  have "prefix (assumptions s) (assumptions (call c s))" by (rule call_prefix)
  also have "prefix (assumptions (call c s)) (assumptions (calls cs (call c s)))"
    by (rule Cons.IH)
  finally show ?case by (simp add: calls_def)
qed

lemma registerAssumptions_valid:
  "list_all validRange (assumptions (registerAssumptions s acs)) =
     (list_all validRange (assumptions s) \<and> list_all (\<lambda>(descr, intro, vFrom, vTo). rangeOk vFrom vTo) acs)"
proof (induction acs arbitrary: s)
  case Nil
  then show ?case by (simp add: registerAssumptions_def)
next
  case (Cons c acs)
  obtain descr intro vFrom vTo where c: "c = (descr, intro, vFrom, vTo)" by (cases c) auto
  have "registerAssumptions s (c # acs)
          = registerAssumptions (snd (registerAssumption s descr intro vFrom vTo)) acs"
    by (simp add: registerAssumptions_def c)
  then have "list_all validRange (assumptions (registerAssumptions s (c # acs))) =
      (list_all validRange (assumptions (snd (registerAssumption s descr intro vFrom vTo)))
       \<and> list_all (\<lambda>(descr, intro, vFrom, vTo). rangeOk vFrom vTo) acs)"
    by (simp only: Cons.IH)
  moreover have "list_all validRange (assumptions (snd (registerAssumption s descr intro vFrom vTo)))
      = (list_all validRange (assumptions s) \<and> rangeOk vFrom vTo)"
    by (simp add: registerAssumption_assumptions) (simp add: validRange_def)
  ultimately show ?case
    by (auto simp: c)
qed

text \<open>
  Claim C7, as the code has it. No call changes or removes an assumption: the list
  before a sequence of calls is a prefix of the list after it. \<open>registerAssumption\<close>
  appends the range it is given without a check, so after a sequence of
  \<open>registerAssumption\<close> calls every assumption satisfies \<open>validFrom \<le> validTo\<close>
  exactly when the assumptions before did and every call was given such a range.
\<close>

theorem assumptions_append_only:
  "prefix (assumptions s) (assumptions (calls cs s))
   \<and> assumptions (snd (registerAssumption s descr intro vFrom vTo)) =
       assumptions s @
         [\<lparr>a_id = ''assumption_'' @ decimal (length (assumptions s) + 1), a_description = descr,
           a_introducedIn = intro, validFrom = vFrom, validTo = vTo\<rparr>]
   \<and> list_all validRange (assumptions (registerAssumptions s acs)) =
       (list_all validRange (assumptions s)
        \<and> list_all (\<lambda>(descr, intro, vFrom, vTo). rangeOk vFrom vTo) acs)
   \<and> list_all validRange (assumptions (registerAssumptions (CourseState_new name lang) acs)) =
       list_all (\<lambda>(descr, intro, vFrom, vTo). rangeOk vFrom vTo) acs"
proof (intro conjI)
  show "list_all validRange (assumptions (registerAssumptions (CourseState_new name lang) acs)) =
       list_all (\<lambda>(descr, intro, vFrom, vTo). rangeOk vFrom vTo) acs"
    by (simp add: registerAssumptions_valid) (simp add: CourseState_new_def)
qed (rule calls_prefix registerAssumption_assumptions registerAssumptions_valid)+

text \<open>
  Claim C7, as it is written, fails: a call with \<open>validFrom = 5\<close> and
  \<open>validTo = 2\<close> is stored as it is.
\<close>

theorem registerAssumption_range_counterexample:
  "assumptions (snd (registerAssumption (CourseState_new ''Microeconomics'' None)
                       ''perfect competition'' 1 5 (Some 2)))
     = [\<lparr>a_id = ''assumption_1'', a_description = ''perfect competition'', a_introducedIn = 1,
         validFrom = 5, validTo = Some 2\<rparr>]
   \<and> \<not> list_all validRange
          (assumptions (snd (registerAssumption (CourseState_new ''Microeconomics'' None)
                               ''perfect competition'' 1 5 (Some 2))))"
  by (simp add: registerAssumption_assumptions CourseState_new_def decimal_digit digit_def
        validRange_def rangeOk_def)

section \<open>Properties of persistence\<close>

lemma those_map_Some: "(\<And>x. x \<in> set xs \<Longrightarrow> f (g x) = Some x) \<Longrightarrow> those (map (\<lambda>x. f (g x)) xs) = Some xs"
  by (induction xs) auto

lemma asArray_strings: "asArray asString (Some (strings_json xs)) = Some xs"
  using those_map_Some [of xs "\<lambda>j. asString (Some j)" JString]
  by (simp add: asArray_def strings_json_def asString_def comp_def)

lemma asLevel_Level: "asLevel (Some (JString (Level_string l))) = Some l"
  by (cases l) (simp_all add: asLevel_def asString_def Level_string_def)

lemma asLanguageArg_Language:
  "asLanguageArg (Some (JString (Language_string l))) = Some (Some l)"
  by (cases l) (simp_all add: asLanguageArg_def asString_def Language_string_def)

lemma asLearningObjective_json:
  "asLearningObjective (Some (LearningObjective_json ob)) = Some ob"
  by (cases "lectureNumber ob")
     (simp_all add: asLearningObjective_def LearningObjective_json_def getProp_def optional_def
        asString_def asNumber_def asOptional_def asLevel_Level)

lemma asNotationEntry_json: "asNotationEntry (Some (NotationEntry_json n)) = Some n"
  by (cases "n_context n")
     (simp_all add: asNotationEntry_def NotationEntry_json_def getProp_def optional_def
        asString_def asNumber_def asOptional_def)

lemma asAssumption_json: "asAssumption (Some (Assumption_json a)) = Some a"
  by (cases "validTo a")
     (simp_all add: asAssumption_def Assumption_json_def getProp_def optional_def
        asString_def asNumber_def asOptional_def)

lemma asLectureMetadata_json: "asLectureMetadata (Some (LectureMetadata_json l)) = Some l"
  by (simp add: asLectureMetadata_def LectureMetadata_json_def getProp_def asArray_strings
        asString_def asNumber_def)

lemma asArray_map:
  "(\<And>x. f (Some (g x)) = Some x) \<Longrightarrow> asArray f (Some (JArray (map g xs))) = Some xs"
  using those_map_Some [of xs "\<lambda>j. f (Some j)" g]
  by (simp add: asArray_def comp_def)

lemma those_comp: "(\<And>x. f (g x) = Some x) \<Longrightarrow> those (map (f \<circ> g) xs) = Some xs"
  by (induction xs) auto

lemma allResults_comp:
  "(\<And>x. f (g x) = Inr (h x)) \<Longrightarrow> allResults (map (f \<circ> g) xs) = Inr (map h xs)"
  by (induction xs) auto

lemma entriesOf_lectures:
  "entriesOf (Some (JArray (map (\<lambda>(k, v). JArray [JNumber k, LectureMetadata_json v]) ls)))
     = Inr (map (\<lambda>(k, v). (Some (JNumber k), Some (LectureMetadata_json v))) ls)"
proof -
  have "entryOf ((\<lambda>(k, v). JArray [JNumber k, LectureMetadata_json v]) x)
          = Inr ((\<lambda>(k, v). (Some (JNumber k), Some (LectureMetadata_json v))) x)" for x
    by (cases x) simp
  from allResults_comp [of entryOf _ _ ls, OF this] show ?thesis
    by (simp add: entriesOf_def)
qed

lemma those_lecture_entries:
  "those (map (asLectureEntry \<circ> (\<lambda>(k, v). (Some (JNumber k), Some (LectureMetadata_json v)))) ls)
     = Some ls"
proof -
  have "asLectureEntry ((\<lambda>(k, v). (Some (JNumber k), Some (LectureMetadata_json v))) x) = Some x"
    for x
    by (cases x) (simp add: asLectureEntry_def asNumber_def asLectureMetadata_json)
  from those_comp [of asLectureEntry _ ls, OF this] show ?thesis .
qed

lemma Map_set_fresh: "k \<notin> fst ` set m \<Longrightarrow> Map_set m k v = m @ [(k, v)]"
  by (induction m) auto

lemma Map_new_distinct: "distinct (map fst es) \<Longrightarrow> Map_new es = es"
proof (induction es rule: rev_induct)
  case Nil
  then show ?case by (simp add: Map_new_def)
next
  case (snoc e es)
  obtain k v where e: "e = (k, v)" by (cases e)
  from snoc have "Map_new es = es" and "k \<notin> fst ` set es" by (auto simp: e)
  then show ?case by (simp add: Map_new_def e Map_set_fresh)
qed

lemma Map_set_keys:
  "map fst (Map_set m k v) = (if k \<in> fst ` set m then map fst m else map fst m @ [k])"
  by (induction m) force+

lemma Map_set_distinct: "distinct (map fst m) \<Longrightarrow> distinct (map fst (Map_set m k v))"
  by (simp add: Map_set_keys)

lemma call_lectures_distinct:
  "distinct (map fst (lectures s)) \<Longrightarrow> distinct (map fst (lectures (call c s)))"
  by (cases c)
     (simp_all add: registerNotation_def registerAssumption_def updateLecture_def Let_def
        Map_set_distinct split: option.splits)

lemma calls_lectures_distinct:
  "distinct (map fst (lectures s)) \<Longrightarrow> distinct (map fst (lectures (calls cs s)))"
proof (induction cs arbitrary: s)
  case Nil
  then show ?case by (simp add: calls_def)
next
  case (Cons c cs)
  from Cons.IH [OF call_lectures_distinct [OF Cons.prems]] show ?case
    by (simp add: calls_def)
qed

lemma fromJSON_roundtrip:
  assumes d: "distinct (map fst (lectures s))"
  shows "fromJSON (toJSON s) = Inr s"
proof -
  have p: "getProp (toJSON s) ''courseName'' = Some (JString (courseName s))"
    "getProp (toJSON s) ''language'' = Some (JString (Language_string (language s)))"
    "getProp (toJSON s) ''syllabus'' = Some (JString (syllabus s))"
    "getProp (toJSON s) ''learningObjectives''
       = Some (JArray (map LearningObjective_json (learningObjectives s)))"
    "getProp (toJSON s) ''notationRegistry''
       = Some (JArray (map NotationEntry_json (notationRegistry s)))"
    "getProp (toJSON s) ''assumptions'' = Some (JArray (map Assumption_json (assumptions s)))"
    "getProp (toJSON s) ''lectures'' =
       Some (JArray (map (\<lambda>(k, v). JArray [JNumber k, LectureMetadata_json v]) (lectures s)))"
    by (simp_all add: toJSON_def getProp_def)
  have n: "toJSON s \<noteq> JNull" by (simp add: toJSON_def)
  show "fromJSON (toJSON s) = Inr s"
    unfolding fromJSON_def p entriesOf_lectures
    using n
    by (simp add: those_lecture_entries asString_def asLanguageArg_Language asArray_map
          asLearningObjective_json asNotationEntry_json asAssumption_json
          Map_new_distinct [OF d] CourseState_new_def)
qed

lemma stateL_lectures:
  "lectures stateL =
     [(3, \<lparr>number = 3, title = ''Monopoly'', objectives = [''markup''], prerequisites = [],
        notationIntroduced = [''Q''], assumptionsIntroduced = [''assumption_1''],
        l_files = [''lecture3.tex'']\<rparr>)]"
  by (simp add: stateL_def updateLecture_def registerAssumption_def Let_def stateQ_def
        registerNotation_def CourseState_new_def)

text \<open>
  Claim C6. Loading the document that \<open>toJSON\<close> writes for a course state gives the
  state back, with every field identical: this holds for every state whose lecture map
  has distinct keys, as every \<open>Map\<close> has, and so for every state reached from a new
  course state by calls of its methods.
\<close>

theorem fromJSON_toJSON:
  "(distinct (map fst (lectures s)) \<longrightarrow> fromJSON (toJSON s) = Inr s)
   \<and> fromJSON (toJSON (calls cs (CourseState_new name lang)))
       = Inr (calls cs (CourseState_new name lang))"
proof (intro conjI impI)
  show "fromJSON (toJSON s) = Inr s" if "distinct (map fst (lectures s))"
    using that by (rule fromJSON_roundtrip)
  have "distinct (map fst (lectures (CourseState_new name lang)))"
    by (simp add: CourseState_new_def)
  then have "distinct (map fst (lectures (calls cs (CourseState_new name lang))))"
    by (rule calls_lectures_distinct)
  then show "fromJSON (toJSON (calls cs (CourseState_new name lang)))
       = Inr (calls cs (CourseState_new name lang))"
    by (rule fromJSON_roundtrip)
qed

theorem fromJSON_toJSON_witness:
  "fromJSON (toJSON stateL) = Inr stateL
   \<and> Map_get (lectures stateL) 3 =
       Some \<lparr>number = 3, title = ''Monopoly'', objectives = [''markup''], prerequisites = [],
        notationIntroduced = [''Q''], assumptionsIntroduced = [''assumption_1''],
        l_files = [''lecture3.tex'']\<rparr>"
proof -
  have d: "distinct (map fst (lectures stateL))"
    by (simp add: stateL_lectures)
  from fromJSON_toJSON [of stateL "[]" "[]" None] d
  have "fromJSON (toJSON stateL) = Inr stateL" by blast
  then show ?thesis by (simp add: stateL_lectures)
qed

end
